theory Spec2Isabelle
  imports Complex_Main
begin

section \<open>The keyword property registry of GridProperties.hpp\<close>

text \<open>
  The class template \<open>GridProperties<T>\<close> keeps three views of one collection of
  \<open>GridProperty<T>\<close> objects: a name-keyed map of shared pointers, a creation-order
  vector of the same shared pointers, and a set of the names whose object was created
  by a read. Whether two views name the very same object matters below, so the
  objects live in an explicit store and the views hold addresses into it.

  Every member function is embedded as a function from the state before the call to
  the outcome and the state after it. An outcome is \<open>Inl e\<close> for a thrown exception
  and \<open>Inr v\<close> for a returned value; the state after a throw is the state at the throw
  (nothing is rolled back). All the bookkeeping members are \<open>mutable\<close> in the source,
  so a \<open>const\<close> member function is embedded in the same way.
\<close>

subsection \<open>Exceptions\<close>

text \<open>
  The class throws \<open>std::invalid_argument\<close> with a message; \<open>std::map::at\<close> and
  \<open>std::unordered_map::at\<close> throw \<open>std::out_of_range\<close> on a missing key.
\<close>

datatype error = invalid_argument string | out_of_range

subsection \<open>Collaborators\<close>

text \<open>
  Modelled from the spec: \<open>EclipseGrid\<close> (EclipseGrid.hpp is not among the sources).
  The registry only reads the three extents (\<open>getNX\<close>, \<open>getNY\<close>, \<open>getNZ\<close>), which the
  spec describes as non-negative integers. They are natural numbers here; the source
  reads them into \<open>int\<close>, and a grid whose extents do not fit is outside this model.
\<close>

record EclipseGrid =
  getNX :: nat
  getNY :: nat
  getNZ :: nat

text \<open>
  Modelled from the spec: \<open>GridProperty<T>::SupportedKeywordInfo\<close> (GridProperty.hpp is
  not among the sources), a descriptor of keyword name, default value, post-processor
  and dimension string, as \<open>postAddKeyword\<close> builds one. The element type \<open>T\<close> is \<open>'a\<close>;
  the post-processor is never run by the registry and is kept as a value of an arbitrary
  type \<open>'p\<close>.
\<close>

record ('a, 'p) SupportedKeywordInfo =
  getKeywordName :: string
  getDefaultValue :: 'a
  getPostProcessor :: 'p
  getDimensionString :: string

text \<open>
  Modelled from the spec: \<open>Log::MessageType\<close> (the OpmLog headers are not among the
  sources), the severity tag of a diagnostic; the spec names informational and warning
  messages.
\<close>

datatype MessageType = Info | Warning

type_synonym Message = "MessageType \<times> string"

text \<open>
  Modelled from the spec: a \<open>GridProperty<T>\<close> object (GridProperty.hpp is not among
  the sources). It holds the extents and the keyword descriptor it was built from and
  its dense array of cell values, one per grid cell.
\<close>

record ('a, 'p) GridProperty =
  m_nx :: nat
  m_ny :: nat
  m_nz :: nat
  m_kwInfo :: "('a, 'p) SupportedKeywordInfo"
  m_data :: "'a list"

text \<open>
  Modelled from the spec: the constructor of \<open>GridProperty<T>\<close> (GridProperty.hpp is
  not among the sources). The spec describes it as producing a default-filled array with
  one element per grid cell, the cell count being the product of the extents.
\<close>

definition GridProperty ::
  "nat \<Rightarrow> nat \<Rightarrow> nat \<Rightarrow> ('a, 'p) SupportedKeywordInfo \<Rightarrow> ('a, 'p) GridProperty" where
  "GridProperty nx ny nz supportedKeyword =
     \<lparr> m_nx = nx, m_ny = ny, m_nz = nz, m_kwInfo = supportedKeyword,
       m_data = replicate (nx * ny * nz) (getDefaultValue supportedKeyword) \<rparr>"

text \<open>
  Modelled from the spec: \<open>Box\<close> (Box.hpp is not among the sources), a sub-volume of
  the grid. It is represented by the list of the flat cell indices it covers.
\<close>

record Box =
  getIndexList :: "nat list"

text \<open>
  Modelled from the spec: \<open>GridProperty<T>::copyFrom(src, inputBox)\<close>, the
  region-scoped copy between two arrays of the same shape. Each cell of the region is
  assigned the source's value at the same flat index, in the order of the index list;
  a cell index beyond the array is skipped.
\<close>

definition copyFrom ::
  "('a, 'p) GridProperty \<Rightarrow> ('a, 'p) GridProperty \<Rightarrow> Box \<Rightarrow> ('a, 'p) GridProperty" where
  "copyFrom target src inputBox =
     target \<lparr> m_data :=
       fold (\<lambda>targetIndex d.
               if targetIndex < length d \<and> targetIndex < length (m_data src)
               then d[targetIndex := m_data src ! targetIndex] else d)
            (getIndexList inputBox) (m_data target) \<rparr>"

subsection \<open>The registry state\<close>

text \<open>
  The data members of \<open>GridProperties<T>\<close>, followed by the two pieces of the
  surrounding world that its member functions touch:
  \<^item> \<open>heap\<close>: the \<open>GridProperty<T>\<close> objects allocated with \<open>new\<close>, in allocation order;
    a \<open>std::shared_ptr\<close> is the position of its object in this list;
  \<^item> \<open>opmLog\<close>: the calls made to the static \<open>OpmLog::addMessage\<close>, in order.
\<close>

record ('a, 'p) GridProperties =
  m_eclipseGrid :: EclipseGrid
  m_messages :: "Message list"
  m_supportedKeywords :: "string \<rightharpoonup> ('a, 'p) SupportedKeywordInfo"
  m_properties :: "string \<rightharpoonup> nat"
  m_autoGeneratedProperties :: "string set"
  m_property_list :: "nat list"
  heap :: "('a, 'p) GridProperty list"
  opmLog :: "Message list"

subsection \<open>Construction and the catalog\<close>

text \<open>
  \<open>std::unordered_map::emplace\<close> inserts only when the key is not yet present;
  otherwise the map is left as it is.
\<close>

definition emplace :: "('k \<rightharpoonup> 'v) \<Rightarrow> 'k \<Rightarrow> 'v \<Rightarrow> ('k \<rightharpoonup> 'v)" where
  "emplace m k v = (case m k of None \<Rightarrow> m(k \<mapsto> v) | Some _ \<Rightarrow> m)"

text \<open>The constructor's loop over the vector of descriptors, front to back.\<close>

fun emplace_all ::
  "('a, 'p) SupportedKeywordInfo list \<Rightarrow> (string \<rightharpoonup> ('a, 'p) SupportedKeywordInfo)
     \<Rightarrow> (string \<rightharpoonup> ('a, 'p) SupportedKeywordInfo)" where
  "emplace_all [] m = m"
| "emplace_all (info # rest) m = emplace_all rest (emplace m (getKeywordName info) info)"

definition GridProperties ::
  "EclipseGrid \<Rightarrow> ('a, 'p) SupportedKeywordInfo list \<Rightarrow> ('a, 'p) GridProperties" where
  "GridProperties eclipseGrid supportedKeywords =
     \<lparr> m_eclipseGrid = eclipseGrid,
       m_messages = [],
       m_supportedKeywords = emplace_all supportedKeywords Map.empty,
       m_properties = Map.empty,
       m_autoGeneratedProperties = {},
       m_property_list = [],
       heap = [],
       opmLog = [] \<rparr>"

text \<open>
  \<open>postAddKeyword\<close>, the private catalog extension open to the friend class
  \<open>Eclipse3DProperties\<close>.
\<close>

definition postAddKeyword ::
  "('a, 'p) GridProperties \<Rightarrow> string \<Rightarrow> 'a \<Rightarrow> 'p \<Rightarrow> string \<Rightarrow> ('a, 'p) GridProperties" where
  "postAddKeyword s name defaultValue postProcessor dimString =
     s \<lparr> m_supportedKeywords :=
           emplace (m_supportedKeywords s) name
             \<lparr> getKeywordName = name, getDefaultValue = defaultValue,
               getPostProcessor = postProcessor, getDimensionString = dimString \<rparr> \<rparr>"

subsection \<open>Queries\<close>

text \<open>
  The source names \<open>m_autoGeneratedProperties_\<close>, \<open>isAutoGenerated_\<close> and
  \<open>addAutoGeneratedKeyword_\<close> end in an underscore, which a constant name here cannot;
  they appear without it. \<open>size\<close> is \<open>size_props\<close>, and the positional overload of
  \<open>getKeyword\<close> is \<open>getKeyword_index\<close>.
\<close>

definition supportsKeyword :: "('a, 'p) GridProperties \<Rightarrow> string \<Rightarrow> bool" where
  "supportsKeyword s keyword \<longleftrightarrow> m_supportedKeywords s keyword \<noteq> None"

definition isAutoGenerated :: "('a, 'p) GridProperties \<Rightarrow> string \<Rightarrow> bool" where
  "isAutoGenerated s keyword \<longleftrightarrow> keyword \<in> m_autoGeneratedProperties s"

definition hasKeyword :: "('a, 'p) GridProperties \<Rightarrow> string \<Rightarrow> bool" where
  "hasKeyword s keyword =
     (let cnt = (case m_properties s keyword of None \<Rightarrow> 0 | Some _ \<Rightarrow> (1::nat));
          positive = (cnt > 0)
      in positive \<and> \<not> isAutoGenerated s keyword)"

definition size_props :: "('a, 'p) GridProperties \<Rightarrow> nat" where
  "size_props s = length (m_property_list s)"

definition getMessageContainer :: "('a, 'p) GridProperties \<Rightarrow> Message list" where
  "getMessageContainer s = m_messages s"

subsection \<open>Messages\<close>

definition not_supported_in_container :: "string \<Rightarrow> string" where
  "not_supported_in_container keywordName =
     ''The keyword: '' @ keywordName @ '' is not supported in this container''"

definition supported_not_initialized :: "string \<Rightarrow> string" where
  "supported_not_initialized keyword =
     ''Keyword: '' @ keyword @ '' is supported - but not initialized.''"

definition not_supported :: "string \<Rightarrow> string" where
  "not_supported keyword = ''Keyword: '' @ keyword @ '' is not supported.''"

definition promotion_warning :: "string \<Rightarrow> string" where
  "promotion_warning keywordName =
     ''The keyword '' @ keywordName @ '' has been used to calculate the ''
     @ ''defaults of another keyword before the first time it was ''
     @ ''explicitly mentioned in the deck. Maybe you need to change ''
     @ ''the ordering of your keywords (move '' @ keywordName @ '' to the ''
     @ ''front?).''"

subsection \<open>Materialising properties\<close>

text \<open>
  \<open>new GridProperty<T>(nx, ny, nz, supportedKeyword)\<close> wrapped in a shared pointer: the
  object is appended to the store and its position is the pointer.
\<close>

definition new_property ::
  "('a, 'p) GridProperties \<Rightarrow> ('a, 'p) SupportedKeywordInfo \<Rightarrow> nat \<times> ('a, 'p) GridProperties" where
  "new_property s supportedKeyword =
     (let nx = getNX (m_eclipseGrid s);
          ny = getNY (m_eclipseGrid s);
          nz = getNZ (m_eclipseGrid s)
      in (length (heap s), s \<lparr> heap := heap s @ [GridProperty nx ny nz supportedKeyword] \<rparr>))"

text \<open>
  \<open>std::map::insert\<close> of a pair, like \<open>emplace\<close>, leaves an existing entry alone; the
  \<open>push_back\<close> on the creation-order vector happens in any case.
\<close>

definition register_property ::
  "('a, 'p) GridProperties \<Rightarrow> string \<Rightarrow> nat \<Rightarrow> ('a, 'p) GridProperties" where
  "register_property s keywordName newProperty =
     s \<lparr> m_properties := emplace (m_properties s) keywordName newProperty,
         m_property_list := m_property_list s @ [newProperty] \<rparr>"

definition addAutoGeneratedKeyword ::
  "('a, 'p) GridProperties \<Rightarrow> string \<Rightarrow> (error + bool) \<times> ('a, 'p) GridProperties" where
  "addAutoGeneratedKeyword s keywordName =
     (if \<not> supportsKeyword s keywordName
      then (Inl (invalid_argument (not_supported_in_container keywordName)), s)
      else if m_properties s keywordName \<noteq> None
      then (Inr False, s)
      else (case m_supportedKeywords s keywordName of
              None \<Rightarrow> (Inl out_of_range, s)
            | Some supportedKeyword \<Rightarrow>
                (let (newProperty, s1) = new_property s supportedKeyword;
                     s2 = s1 \<lparr> m_autoGeneratedProperties :=
                                 insert keywordName (m_autoGeneratedProperties s1) \<rparr>
                 in (Inr True, register_property s2 keywordName newProperty))))"

text \<open>\<open>*m_properties.at(keyword)\<close>: the address stored under the name.\<close>

definition properties_at :: "('a, 'p) GridProperties \<Rightarrow> string \<Rightarrow> error + nat" where
  "properties_at s keyword =
     (case m_properties s keyword of None \<Rightarrow> Inl out_of_range | Some p \<Rightarrow> Inr p)"

text \<open>
  \<open>getKeyword(const std::string&)\<close>; the \<open>const\<close> and the non-\<open>const\<close> overload have the
  same body.
\<close>

definition getKeyword ::
  "('a, 'p) GridProperties \<Rightarrow> string \<Rightarrow> (error + nat) \<times> ('a, 'p) GridProperties" where
  "getKeyword s keyword =
     (if \<not> hasKeyword s keyword
      then (case addAutoGeneratedKeyword s keyword of
              (Inl e, s1) \<Rightarrow> (Inl e, s1)
            | (Inr _, s1) \<Rightarrow> (properties_at s1 keyword, s1))
      else (properties_at s keyword, s))"

text \<open>\<open>getKeyword(size_t)\<close>, again the same for both overloads.\<close>

definition getKeyword_index ::
  "('a, 'p) GridProperties \<Rightarrow> nat \<Rightarrow> (error + nat) \<times> ('a, 'p) GridProperties" where
  "getKeyword_index s index =
     (if index < size_props s
      then (Inr (m_property_list s ! index), s)
      else (Inl (invalid_argument ''Invalid index''), s))"

definition getInitializedKeyword ::
  "('a, 'p) GridProperties \<Rightarrow> string \<Rightarrow> (error + nat) \<times> ('a, 'p) GridProperties" where
  "getInitializedKeyword s keyword =
     (if hasKeyword s keyword
      then (properties_at s keyword, s)
      else if supportsKeyword s keyword
      then (Inl (invalid_argument (supported_not_initialized keyword)), s)
      else (Inl (invalid_argument (not_supported keyword)), s))"

definition addKeyword ::
  "('a, 'p) GridProperties \<Rightarrow> string \<Rightarrow> (error + bool) \<times> ('a, 'p) GridProperties" where
  "addKeyword s keywordName =
     (if \<not> supportsKeyword s keywordName
      then (Inl (invalid_argument (not_supported_in_container keywordName)), s)
      else if hasKeyword s keywordName
      then (Inr False, s)
      else if keywordName \<in> m_autoGeneratedProperties s
      then (Inr True,
            s \<lparr> opmLog := opmLog s @ [(Warning, promotion_warning keywordName)],
                m_autoGeneratedProperties := m_autoGeneratedProperties s - {keywordName} \<rparr>)
      else (case m_supportedKeywords s keywordName of
              None \<Rightarrow> (Inl out_of_range, s)
            | Some supportedKeyword \<Rightarrow>
                (let (newProperty, s1) = new_property s supportedKeyword
                 in (Inr True, register_property s1 keywordName newProperty))))"

definition getOrCreateProperty ::
  "('a, 'p) GridProperties \<Rightarrow> string \<Rightarrow> (error + nat) \<times> ('a, 'p) GridProperties" where
  "getOrCreateProperty s name =
     (if \<not> hasKeyword s name
      then (case addKeyword s name of
              (Inl e, s1) \<Rightarrow> (Inl e, s1)
            | (Inr _, s1) \<Rightarrow> getKeyword s1 name)
      else getKeyword s name)"

text \<open>
  \<open>copyKeyword\<close>: \<open>src\<close> and \<open>target\<close> are references to objects of the store, so
  \<open>target.copyFrom(src, inputBox)\<close> replaces the object at the target's address by the
  result of the copy from the object at the source's address. A shared pointer held by
  the registry always points to a live object; here that is the invariant, stated
  below, that every registered address lies inside the store.
\<close>

definition copyKeyword ::
  "('a, 'p) GridProperties \<Rightarrow> string \<Rightarrow> string \<Rightarrow> Box \<Rightarrow> (error + unit) \<times> ('a, 'p) GridProperties" where
  "copyKeyword s srcField targetField inputBox =
     (case getKeyword s srcField of
        (Inl e, s1) \<Rightarrow> (Inl e, s1)
      | (Inr src, s1) \<Rightarrow>
          (case getOrCreateProperty s1 targetField of
             (Inl e, s2) \<Rightarrow> (Inl e, s2)
           | (Inr target, s2) \<Rightarrow>
               (Inr (),
                s2 \<lparr> heap := (heap s2)[target := copyFrom (heap s2 ! target) (heap s2 ! src) inputBox] \<rparr>)))"

subsection \<open>Invariants of the registry\<close>

text \<open>
  What the three views have in common in every state the member functions produce:
  a property exists only for a catalogued name, the auto-generated names have a
  property, no object is registered under two names, and the creation-order vector
  lists each registered object once and points into the store.
\<close>

definition wf_registry :: "('a, 'p) GridProperties \<Rightarrow> bool" where
  "wf_registry s \<longleftrightarrow>
     dom (m_properties s) \<subseteq> dom (m_supportedKeywords s) \<and>
     m_autoGeneratedProperties s \<subseteq> dom (m_properties s) \<and>
     inj_on (m_properties s) (dom (m_properties s)) \<and>
     distinct (m_property_list s) \<and>
     set (m_property_list s) = ran (m_properties s) \<and>
     (\<forall>p \<in> set (m_property_list s). p < length (heap s))"

text \<open>The number of grid cells, and the invariant that every registered array has it.\<close>

definition cartesianSize :: "('a, 'p) GridProperties \<Rightarrow> nat" where
  "cartesianSize s =
     getNX (m_eclipseGrid s) * getNY (m_eclipseGrid s) * getNZ (m_eclipseGrid s)"

definition shaped :: "('a, 'p) GridProperties \<Rightarrow> bool" where
  "shaped s \<longleftrightarrow>
     (\<forall>p \<in> set (m_property_list s). length (m_data (heap s ! p)) = cartesianSize s)"

text \<open>
  The state after a property has been created for a keyword that had none, as both
  \<open>addAutoGeneratedKeyword_\<close> and \<open>addKeyword\<close> leave it; \<open>auto\<close> tells whether the name
  is entered among the auto-generated ones. It only abbreviates the results below.
\<close>

definition created ::
  "('a, 'p) GridProperties \<Rightarrow> string \<Rightarrow> ('a, 'p) SupportedKeywordInfo \<Rightarrow> bool
     \<Rightarrow> ('a, 'p) GridProperties" where
  "created s k info auto =
     s \<lparr> m_properties := (m_properties s)(k \<mapsto> length (heap s)),
         m_autoGeneratedProperties :=
           (if auto then insert k (m_autoGeneratedProperties s)
            else m_autoGeneratedProperties s),
         m_property_list := m_property_list s @ [length (heap s)],
         heap := heap s @ [GridProperty (getNX (m_eclipseGrid s)) (getNY (m_eclipseGrid s))
                             (getNZ (m_eclipseGrid s)) info] \<rparr>"

text \<open>
  The state after the promotion of an auto-generated property by \<open>addKeyword\<close>; again
  only an abbreviation for the results below.
\<close>

definition promoted :: "('a, 'p) GridProperties \<Rightarrow> string \<Rightarrow> ('a, 'p) GridProperties" where
  "promoted s k =
     s \<lparr> opmLog := opmLog s @ [(Warning, promotion_warning k)],
         m_autoGeneratedProperties := m_autoGeneratedProperties s - {k} \<rparr>"

text \<open>
  The cell values a keyword has now: those of its property, or, when it has none yet,
  the default-filled array the property would be created with. Creating a property
  does not change this, which is how the results on \<open>copyKeyword\<close> speak of the
  values before the call.
\<close>

definition current_values :: "('a, 'p) GridProperties \<Rightarrow> string \<Rightarrow> 'a list" where
  "current_values s k =
     (case m_properties s k of
        Some p \<Rightarrow> m_data (heap s ! p)
      | None \<Rightarrow>
          (case m_supportedKeywords s k of
             Some info \<Rightarrow> replicate (cartesianSize s) (getDefaultValue info)
           | None \<Rightarrow> []))"

subsection \<open>Reachable states\<close>

text \<open>
  The states a registry can be in: it is constructed, and then its member functions are
  called in any order with any arguments (a call that throws leaves the state at the
  throw); in between, a caller may overwrite the cell values of a property through the
  reference that \<open>getKeyword\<close> or \<open>getOrCreateProperty\<close> returned, the array keeping its
  length. \<open>getKeyword(size_t)\<close>, \<open>getInitializedKeyword\<close> and the queries never change
  the state.
\<close>

inductive reachable :: "('a, 'p) GridProperties \<Rightarrow> bool" where
  constructed: "reachable (GridProperties eclipseGrid supportedKeywords)"
| read: "reachable s \<Longrightarrow> reachable (snd (getKeyword s keyword))"
| added: "reachable s \<Longrightarrow> reachable (snd (addKeyword s keyword))"
| handle: "reachable s \<Longrightarrow> reachable (snd (getOrCreateProperty s name))"
| copied: "reachable s \<Longrightarrow> reachable (snd (copyKeyword s srcField targetField inputBox))"
| extended: "reachable s \<Longrightarrow>
     reachable (postAddKeyword s name defaultValue postProcessor dimString)"
| written: "reachable s \<Longrightarrow> m_properties s keyword = Some p \<Longrightarrow>
     length d = length (m_data (heap s ! p)) \<Longrightarrow>
     reachable (s \<lparr> heap := (heap s)[p := (heap s ! p) \<lparr> m_data := d \<rparr>] \<rparr>)"

subsection \<open>Sequences of materialisations\<close>

text \<open>
  A keyword is materialised either by a read (\<open>getKeyword(name)\<close>) or by an explicit
  request (\<open>addKeyword(name)\<close>); a driver issues a sequence of them.
\<close>

datatype materialization = Lazy string | Explicit string

fun keyword_of :: "materialization \<Rightarrow> string" where
  "keyword_of (Lazy k) = k"
| "keyword_of (Explicit k) = k"

fun materialize :: "('a, 'p) GridProperties \<Rightarrow> materialization \<Rightarrow> ('a, 'p) GridProperties" where
  "materialize s (Lazy k) = snd (getKeyword s k)"
| "materialize s (Explicit k) = snd (addKeyword s k)"

definition materialize_all ::
  "('a, 'p) GridProperties \<Rightarrow> materialization list \<Rightarrow> ('a, 'p) GridProperties" where
  "materialize_all s ms = foldl materialize s ms"

subsection \<open>A concrete registry\<close>

text \<open>
  The scenario of the specification: a grid of 2 x 1 x 1 cells and the catalog
  PORO (default 0.2), PERMX (default 100). \<open>scenario_read\<close> is the registry after
  PORO has been read, \<open>scenario_edited\<close> the same after a caller has written 0.7 into
  the first cell through the reference it was given.
\<close>

definition scenario_grid :: EclipseGrid where
  "scenario_grid = \<lparr> getNX = 2, getNY = 1, getNZ = 1 \<rparr>"

definition PORO_info :: "(real, unit) SupportedKeywordInfo" where
  "PORO_info = \<lparr> getKeywordName = ''PORO'', getDefaultValue = 0.2,
                 getPostProcessor = (), getDimensionString = ''1'' \<rparr>"

definition PERMX_info :: "(real, unit) SupportedKeywordInfo" where
  "PERMX_info = \<lparr> getKeywordName = ''PERMX'', getDefaultValue = 100,
                  getPostProcessor = (), getDimensionString = ''Permeability'' \<rparr>"

definition scenario :: "(real, unit) GridProperties" where
  "scenario = GridProperties scenario_grid [PORO_info, PERMX_info]"

definition scenario_read :: "(real, unit) GridProperties" where
  "scenario_read = snd (getKeyword scenario ''PORO'')"

definition scenario_edited :: "(real, unit) GridProperties" where
  "scenario_edited =
     scenario_read \<lparr> heap := (heap scenario_read)
                       [0 := (heap scenario_read ! 0) \<lparr> m_data := [0.7, 0.2] \<rparr>] \<rparr>"

text \<open>
  A second descriptor for PORO with another default, for a supported-keyword list that
  names PORO twice.
\<close>

definition PORO_other :: "(real, unit) SupportedKeywordInfo" where
  "PORO_other = \<lparr> getKeywordName = ''PORO'', getDefaultValue = 0.5,
                  getPostProcessor = (), getDimensionString = ''1'' \<rparr>"

text \<open>
  The region-copy example of the specification: a grid of 2 x 2 x 1 cells, PORO and
  PERMX both added explicitly, and PORO then written by a caller to 1, 2, 3, 4.
\<close>

definition region_grid :: EclipseGrid where
  "region_grid = \<lparr> getNX = 2, getNY = 2, getNZ = 1 \<rparr>"

definition region_initial :: "(real, unit) GridProperties" where
  "region_initial =
     snd (addKeyword (snd (addKeyword (GridProperties region_grid [PORO_info, PERMX_info])
                             ''PORO'')) ''PERMX'')"

definition region_registry :: "(real, unit) GridProperties" where
  "region_registry =
     region_initial \<lparr> heap := (heap region_initial)
                        [0 := (heap region_initial ! 0) \<lparr> m_data := [1, 2, 3, 4] \<rparr>] \<rparr>"

section \<open>Basic facts\<close>

lemmas scenario_defs =
  scenario_def scenario_read_def scenario_edited_def scenario_grid_def PORO_info_def
  PERMX_info_def

lemmas operation_defs =
  GridProperties_def emplace_def supportsKeyword_def hasKeyword_def isAutoGenerated_def
  addAutoGeneratedKeyword_def new_property_def register_property_def properties_at_def
  getKeyword_def addKeyword_def GridProperty_def Let_def

lemma emplace_all_lookup:
  "emplace_all xs m k =
     (case m k of Some v \<Rightarrow> Some v | None \<Rightarrow> find (\<lambda>info. getKeywordName info = k) xs)"
  by (induction xs arbitrary: m) (auto simp: emplace_def split: option.splits)

lemma wf_GridProperties: "wf_registry (GridProperties g xs)"
  by (simp add: wf_registry_def GridProperties_def)

lemma shaped_GridProperties: "shaped (GridProperties g xs)"
  by (simp add: shaped_def GridProperties_def)

lemma fresh_address:
  assumes "wf_registry s"
  shows "length (heap s) \<notin> ran (m_properties s)"
  using assms unfolding wf_registry_def by (metis less_irrefl)

lemma addAutoGeneratedKeyword_absent:
  assumes "m_supportedKeywords s k = Some info" "m_properties s k = None"
  shows "addAutoGeneratedKeyword s k = (Inr True, created s k info True)"
  using assms
  by (simp add: addAutoGeneratedKeyword_def supportsKeyword_def new_property_def
      register_property_def emplace_def created_def Let_def)

lemma getKeyword_absent:
  assumes "m_supportedKeywords s k = Some info" "m_properties s k = None"
  shows "getKeyword s k = (Inr (length (heap s)), created s k info True)"
  using assms
  by (simp add: getKeyword_def hasKeyword_def addAutoGeneratedKeyword_absent
      properties_at_def created_def)

lemma getKeyword_present:
  assumes "supportsKeyword s k" "m_properties s k = Some p"
  shows "getKeyword s k = (Inr p, s)"
  using assms
  by (simp add: getKeyword_def hasKeyword_def addAutoGeneratedKeyword_def properties_at_def)

lemma addKeyword_absent:
  assumes "m_supportedKeywords s k = Some info" "m_properties s k = None"
    "k \<notin> m_autoGeneratedProperties s"
  shows "addKeyword s k = (Inr True, created s k info False)"
  using assms
  by (simp add: addKeyword_def supportsKeyword_def hasKeyword_def new_property_def
      register_property_def emplace_def created_def Let_def)

lemma addKeyword_explicit:
  assumes "supportsKeyword s k" "m_properties s k = Some p"
    "k \<notin> m_autoGeneratedProperties s"
  shows "addKeyword s k = (Inr False, s)"
  using assms by (simp add: addKeyword_def hasKeyword_def isAutoGenerated_def)

lemma wf_created:
  assumes "wf_registry s" "m_supportedKeywords s k = Some info" "m_properties s k = None"
  shows "wf_registry (created s k info auto)"
proof -
  have fresh: "length (heap s) \<notin> ran (m_properties s)"
    using assms(1) by (rule fresh_address)
  have inj: "inj_on ((m_properties s)(k \<mapsto> length (heap s))) (insert k (dom (m_properties s)))"
    using assms(1,3) fresh unfolding wf_registry_def inj_on_def
    by (auto simp: ran_def)
  have ran: "ran ((m_properties s)(k \<mapsto> length (heap s)))
               = insert (length (heap s)) (ran (m_properties s))"
    using assms(3) by simp
  show ?thesis
    using assms fresh inj ran unfolding wf_registry_def created_def
    by (auto simp: less_Suc_eq)
qed

lemma shaped_created:
  assumes "wf_registry s" "shaped s"
  shows "shaped (created s k info auto)"
  using assms unfolding shaped_def created_def wf_registry_def cartesianSize_def
  by (auto simp: nth_append GridProperty_def)

subsection \<open>The state after each call, and the invariants\<close>

lemma getKeyword_state:
  "snd (getKeyword s k) =
     (case m_supportedKeywords s k of
        Some info \<Rightarrow> if m_properties s k = None then created s k info True else s
      | None \<Rightarrow> s)"
proof (cases "m_supportedKeywords s k")
  case None
  then show ?thesis
    by (simp add: getKeyword_def addAutoGeneratedKeyword_def supportsKeyword_def)
next
  case (Some info)
  show ?thesis
  proof (cases "m_properties s k")
    case None
    with Some show ?thesis by (simp add: getKeyword_absent)
  next
    case (Some p)
    with \<open>m_supportedKeywords s k = Some info\<close> show ?thesis
      by (simp add: getKeyword_present supportsKeyword_def)
  qed
qed

lemma wf_getKeyword:
  assumes "wf_registry s"
  shows "wf_registry (snd (getKeyword s k))"
  using assms by (auto simp: getKeyword_state wf_created split: option.splits)

lemma shaped_getKeyword:
  assumes "wf_registry s" "shaped s"
  shows "shaped (snd (getKeyword s k))"
  using assms by (auto simp: getKeyword_state shaped_created split: option.splits)

lemma addKeyword_auto:
  assumes "supportsKeyword s k" "k \<in> m_autoGeneratedProperties s"
  shows "addKeyword s k = (Inr True, promoted s k)"
  using assms by (simp add: addKeyword_def hasKeyword_def isAutoGenerated_def promoted_def)

lemma wf_promoted:
  assumes "wf_registry s"
  shows "wf_registry (promoted s k)"
  using assms unfolding wf_registry_def promoted_def by auto

lemma shaped_promoted:
  assumes "shaped s"
  shows "shaped (promoted s k)"
  using assms unfolding shaped_def promoted_def cartesianSize_def by simp

lemma addKeyword_state:
  assumes "wf_registry s"
  shows "snd (addKeyword s k) =
     (case m_supportedKeywords s k of
        None \<Rightarrow> s
      | Some info \<Rightarrow>
          if m_properties s k = None then created s k info False
          else if k \<in> m_autoGeneratedProperties s then promoted s k else s)"
proof (cases "m_supportedKeywords s k")
  case None
  then show ?thesis by (simp add: addKeyword_def supportsKeyword_def)
next
  case info: (Some info)
  show ?thesis
  proof (cases "m_properties s k")
    case None
    then have "k \<notin> m_autoGeneratedProperties s"
      using assms unfolding wf_registry_def by auto
    with info None show ?thesis by (simp add: addKeyword_absent)
  next
    case (Some p)
    with info show ?thesis
      by (simp add: addKeyword_auto addKeyword_explicit supportsKeyword_def)
  qed
qed

lemma wf_addKeyword:
  assumes "wf_registry s"
  shows "wf_registry (snd (addKeyword s k))"
  using assms by (auto simp: addKeyword_state wf_created wf_promoted split: option.splits)

lemma shaped_addKeyword:
  assumes "wf_registry s" "shaped s"
  shows "shaped (snd (addKeyword s k))"
  using assms by (auto simp: addKeyword_state shaped_created shaped_promoted split: option.splits)

lemma wf_postAddKeyword:
  assumes "wf_registry s"
  shows "wf_registry (postAddKeyword s name d pp dimString)"
  using assms unfolding wf_registry_def postAddKeyword_def emplace_def
  by (auto split: option.splits)

lemma wf_scenario_read: "wf_registry scenario_read"
  unfolding scenario_read_def scenario_def by (intro wf_getKeyword wf_GridProperties)

lemma wf_heap_update:
  assumes "wf_registry s" "length h = length (heap s)"
  shows "wf_registry (s \<lparr> heap := h \<rparr>)"
  using assms unfolding wf_registry_def by simp

lemma wf_scenario_edited: "wf_registry scenario_edited"
  unfolding scenario_edited_def by (rule wf_heap_update [OF wf_scenario_read]) simp

lemma messages_differ: "supported_not_initialized k \<noteq> not_supported k'"
proof
  assume "supported_not_initialized k = not_supported k'"
  then have "rev (supported_not_initialized k) = rev (not_supported k')" by simp
  then show False
    by (simp add: supported_not_initialized_def not_supported_def)
qed

lemma unsupported_no_property:
  assumes "wf_registry s" "m_supportedKeywords s name = None"
  shows "m_properties s name = None"
  using assms unfolding wf_registry_def by (metis domIff subsetD)

subsection \<open>Materialising keywords that have no property yet\<close>

lemma catalog_GridProperties:
  "m_supportedKeywords (GridProperties g xs) k = find (\<lambda>info. getKeywordName info = k) xs"
  by (simp add: GridProperties_def emplace_all_lookup)

lemma supportsKeyword_GridProperties:
  "supportsKeyword (GridProperties g xs) k \<longleftrightarrow> k \<in> getKeywordName ` set xs"
  unfolding supportsKeyword_def catalog_GridProperties by (auto simp: find_None_iff)

lemma materialize_fresh:
  assumes "wf_registry s" "m_supportedKeywords s (keyword_of m) = Some info"
    "m_properties s (keyword_of m) = None"
  shows "\<exists>auto. materialize s m = created s (keyword_of m) info auto"
proof (cases m)
  case (Lazy k)
  with assms show ?thesis by (auto simp: getKeyword_absent)
next
  case (Explicit k)
  with assms have "k \<notin> m_autoGeneratedProperties s"
    unfolding wf_registry_def by auto
  with Explicit assms show ?thesis by (auto simp: addKeyword_absent)
qed

lemma materialize_all_fresh:
  assumes "wf_registry s" "distinct (map keyword_of ms)"
    "\<forall>m \<in> set ms. supportsKeyword s (keyword_of m) \<and> m_properties s (keyword_of m) = None"
  shows "wf_registry (materialize_all s ms)
    \<and> m_supportedKeywords (materialize_all s ms) = m_supportedKeywords s
    \<and> (\<forall>k. k \<notin> keyword_of ` set ms \<longrightarrow> m_properties (materialize_all s ms) k = m_properties s k)
    \<and> (\<exists>ps. m_property_list (materialize_all s ms) = m_property_list s @ ps
           \<and> map (m_properties (materialize_all s ms)) (map keyword_of ms) = map Some ps)"
  using assms
proof (induction ms arbitrary: s)
  case Nil
  then show ?case by (simp add: materialize_all_def)
next
  case (Cons m ms)
  let ?k = "keyword_of m"
  from Cons.prems(3) obtain info where info: "m_supportedKeywords s ?k = Some info"
    and none: "m_properties s ?k = None"
    by (auto simp: supportsKeyword_def)
  from materialize_fresh [OF Cons.prems(1) info none]
  obtain auto where s1: "materialize s m = created s ?k info auto" by blast
  let ?s1 = "created s ?k info auto"
  have all: "materialize_all s (m # ms) = materialize_all ?s1 ms"
    by (simp add: materialize_all_def s1)
  have wf1: "wf_registry ?s1"
    using Cons.prems(1) info none by (rule wf_created)
  have cat1: "m_supportedKeywords ?s1 = m_supportedKeywords s"
    by (simp add: created_def)
  have notin: "?k \<notin> keyword_of ` set ms" and dist: "distinct (map keyword_of ms)"
    using Cons.prems(2) by auto
  have fresh1: "\<forall>m' \<in> set ms. supportsKeyword ?s1 (keyword_of m')
                  \<and> m_properties ?s1 (keyword_of m') = None"
  proof
    fix m' assume m': "m' \<in> set ms"
    then have "keyword_of m' \<noteq> ?k" using notin by (metis imageI)
    with Cons.prems(3) m' show "supportsKeyword ?s1 (keyword_of m')
                  \<and> m_properties ?s1 (keyword_of m') = None"
      by (simp add: supportsKeyword_def created_def)
  qed
  from Cons.IH [OF wf1 dist fresh1] obtain ps where
    wf': "wf_registry (materialize_all ?s1 ms)"
    and cat': "m_supportedKeywords (materialize_all ?s1 ms) = m_supportedKeywords ?s1"
    and frame': "\<forall>k. k \<notin> keyword_of ` set ms \<longrightarrow>
                  m_properties (materialize_all ?s1 ms) k = m_properties ?s1 k"
    and list': "m_property_list (materialize_all ?s1 ms) = m_property_list ?s1 @ ps"
    and map': "map (m_properties (materialize_all ?s1 ms)) (map keyword_of ms) = map Some ps"
    by blast
  have here: "m_properties (materialize_all ?s1 ms) ?k = Some (length (heap s))"
    using frame' notin by (simp add: created_def)
  have frame: "\<forall>k. k \<notin> keyword_of ` set (m # ms) \<longrightarrow>
                  m_properties (materialize_all ?s1 ms) k = m_properties s k"
    using frame' by (simp add: created_def)
  have list: "m_property_list (materialize_all ?s1 ms)
                = m_property_list s @ (length (heap s) # ps)"
    using list' by (simp add: created_def)
  have maps: "map (m_properties (materialize_all ?s1 ms)) (map keyword_of (m # ms))
                = map Some (length (heap s) # ps)"
    using map' here by simp
  from wf' cat' cat1 frame list maps show ?case
    unfolding all by metis
qed

lemma materialize_all_objects:
  assumes "wf_registry s" "distinct (map keyword_of ms)"
    "\<forall>m \<in> set ms. supportsKeyword s (keyword_of m) \<and> m_properties s (keyword_of m) = None"
  shows "m_eclipseGrid (materialize_all s ms) = m_eclipseGrid s
    \<and> (\<exists>hs. heap (materialize_all s ms) = heap s @ hs \<and> length hs = length ms)
    \<and> (\<forall>m \<in> set ms. \<forall>info. m_supportedKeywords s (keyword_of m) = Some info \<longrightarrow>
          (\<exists>p. m_properties (materialize_all s ms) (keyword_of m) = Some p
             \<and> p < length (heap (materialize_all s ms))
             \<and> heap (materialize_all s ms) ! p
                 = GridProperty (getNX (m_eclipseGrid s)) (getNY (m_eclipseGrid s))
                     (getNZ (m_eclipseGrid s)) info))"
  using assms
proof (induction ms arbitrary: s)
  case Nil
  then show ?case by (simp add: materialize_all_def)
next
  case (Cons m ms)
  let ?k = "keyword_of m"
  from Cons.prems(3) obtain info where info: "m_supportedKeywords s ?k = Some info"
    and none: "m_properties s ?k = None"
    by (auto simp: supportsKeyword_def)
  from materialize_fresh [OF Cons.prems(1) info none]
  obtain auto where s1: "materialize s m = created s ?k info auto" by blast
  let ?s1 = "created s ?k info auto"
  let ?s' = "materialize_all ?s1 ms"
  let ?new = "GridProperty (getNX (m_eclipseGrid s)) (getNY (m_eclipseGrid s))
                (getNZ (m_eclipseGrid s))"
  have all: "materialize_all s (m # ms) = ?s'"
    by (simp add: materialize_all_def s1)
  have wf1: "wf_registry ?s1"
    using Cons.prems(1) info none by (rule wf_created)
  have cat1: "m_supportedKeywords ?s1 = m_supportedKeywords s"
    and grid1: "m_eclipseGrid ?s1 = m_eclipseGrid s"
    and heap1: "heap ?s1 = heap s @ [?new info]"
    by (simp_all add: created_def)
  have notin: "?k \<notin> keyword_of ` set ms" and dist: "distinct (map keyword_of ms)"
    using Cons.prems(2) by auto
  have fresh1: "\<forall>m' \<in> set ms. supportsKeyword ?s1 (keyword_of m')
                  \<and> m_properties ?s1 (keyword_of m') = None"
  proof
    fix m' assume m': "m' \<in> set ms"
    then have "keyword_of m' \<noteq> ?k" using notin by (metis imageI)
    with Cons.prems(3) m' show "supportsKeyword ?s1 (keyword_of m')
                  \<and> m_properties ?s1 (keyword_of m') = None"
      by (simp add: supportsKeyword_def created_def)
  qed
  from Cons.IH [OF wf1 dist fresh1] obtain hs where
    grid': "m_eclipseGrid ?s' = m_eclipseGrid ?s1"
    and heap': "heap ?s' = heap ?s1 @ hs" and len': "length hs = length ms"
    and objs': "\<forall>m' \<in> set ms. \<forall>info'. m_supportedKeywords ?s1 (keyword_of m') = Some info' \<longrightarrow>
          (\<exists>p. m_properties ?s' (keyword_of m') = Some p \<and> p < length (heap ?s')
             \<and> heap ?s' ! p = GridProperty (getNX (m_eclipseGrid ?s1)) (getNY (m_eclipseGrid ?s1))
                     (getNZ (m_eclipseGrid ?s1)) info')"
    by blast
  have frame: "m_properties ?s' ?k = m_properties ?s1 ?k"
    using materialize_all_fresh [OF wf1 dist fresh1] notin by blast
  have here: "m_properties ?s' ?k = Some (length (heap s))"
    using frame by (simp add: created_def)
  have heap: "heap ?s' = heap s @ (?new info # hs)"
    using heap' heap1 by simp
  have head: "\<exists>p. m_properties ?s' ?k = Some p \<and> p < length (heap ?s')
                 \<and> heap ?s' ! p = ?new info"
    using here heap by simp
  have objs: "\<exists>p. m_properties ?s' (keyword_of m') = Some p \<and> p < length (heap ?s')
                 \<and> heap ?s' ! p = ?new info'"
    if "m' \<in> set (m # ms)" "m_supportedKeywords s (keyword_of m') = Some info'" for m' info'
  proof (cases "m' = m")
    case True
    with that(2) info have "info' = info" by simp
    with True head show ?thesis by simp
  next
    case False
    with that(1) have "m' \<in> set ms" by simp
    with objs' that(2) show ?thesis
      unfolding cat1 grid1 by blast
  qed
  have "m_eclipseGrid ?s' = m_eclipseGrid s"
    using grid' grid1 by simp
  moreover have "\<exists>hs'. heap ?s' = heap s @ hs' \<and> length hs' = length (m # ms)"
    using heap len' by simp
  ultimately show ?case
    unfolding all using objs by blast
qed

lemma getKeyword_index_in_range:
  assumes "index < size_props s"
  shows "getKeyword_index s index = (Inr (m_property_list s ! index), s)"
  using assms by (simp add: getKeyword_index_def)

subsection \<open>Reads and writes of catalogued keywords\<close>

lemma registered_in_heap:
  assumes "wf_registry s" "m_properties s k = Some p"
  shows "p < length (heap s)"
proof -
  have "p \<in> ran (m_properties s)" using assms(2) by (rule ranI)
  then show ?thesis using assms(1) unfolding wf_registry_def by metis
qed

lemma registered_shape:
  assumes "wf_registry s" "shaped s" "m_properties s k = Some p"
  shows "length (m_data (heap s ! p)) = cartesianSize s"
proof -
  have "p \<in> ran (m_properties s)" using assms(3) by (rule ranI)
  then show ?thesis using assms(1,2) unfolding wf_registry_def shaped_def by metis
qed

lemma cartesianSize_created: "cartesianSize (created s k info auto) = cartesianSize s"
  by (simp add: cartesianSize_def created_def)

lemma cartesianSize_promoted: "cartesianSize (promoted s k) = cartesianSize s"
  by (simp add: cartesianSize_def promoted_def)

lemma current_values_created:
  assumes "wf_registry s" "m_supportedKeywords s k = Some info" "m_properties s k = None"
  shows "current_values (created s k info auto) k' = current_values s k'"
proof (cases "k' = k")
  case True
  with assms show ?thesis
    by (simp add: current_values_def created_def GridProperty_def cartesianSize_def)
next
  case False
  show ?thesis
  proof (cases "m_properties s k'")
    case None
    with False show ?thesis
      unfolding current_values_def cartesianSize_created
      by (simp add: created_def split: option.splits)
  next
    case (Some q)
    then have "q < length (heap s)" using assms(1) registered_in_heap by blast
    with False Some show ?thesis
      by (simp add: current_values_def created_def nth_append)
  qed
qed

lemma current_values_promoted: "current_values (promoted s k) k' = current_values s k'"
  unfolding current_values_def cartesianSize_promoted
  by (simp add: promoted_def split: option.splits)

lemma getKeyword_supported:
  assumes "wf_registry s" "m_supportedKeywords s k = Some info"
  shows "\<exists>p s1. getKeyword s k = (Inr p, s1)
           \<and> m_properties s1 k = Some p
           \<and> wf_registry s1 \<and> (shaped s \<longrightarrow> shaped s1)
           \<and> m_supportedKeywords s1 = m_supportedKeywords s
           \<and> m_eclipseGrid s1 = m_eclipseGrid s
           \<and> opmLog s1 = opmLog s
           \<and> m_autoGeneratedProperties s \<subseteq> m_autoGeneratedProperties s1
           \<and> (\<forall>k' q. m_properties s k' = Some q \<longrightarrow> m_properties s1 k' = Some q)
           \<and> (\<forall>k'. current_values s1 k' = current_values s k')"
proof (cases "m_properties s k")
  case None
  have "getKeyword s k = (Inr (length (heap s)), created s k info True)"
    using assms(2) None by (rule getKeyword_absent)
  moreover have "wf_registry (created s k info True)"
    using assms None by (rule wf_created)
  moreover have "shaped s \<longrightarrow> shaped (created s k info True)"
    using assms(1) shaped_created by blast
  moreover have "\<forall>k'. current_values (created s k info True) k' = current_values s k'"
    using assms None by (simp add: current_values_created)
  moreover have "\<forall>k' q. m_properties s k' = Some q \<longrightarrow>
                   m_properties (created s k info True) k' = Some q"
    using None by (auto simp: created_def)
  ultimately show ?thesis
    by (simp add: created_def subset_insertI)
next
  case (Some p)
  have "getKeyword s k = (Inr p, s)"
    using assms(2) Some by (simp add: getKeyword_present supportsKeyword_def)
  with Some assms(1) show ?thesis by simp
qed

lemma getOrCreateProperty_supported:
  assumes "wf_registry s" "m_supportedKeywords s k = Some info"
  shows "\<exists>p s2. getOrCreateProperty s k = (Inr p, s2)
           \<and> m_properties s2 k = Some p
           \<and> hasKeyword s2 k
           \<and> wf_registry s2 \<and> (shaped s \<longrightarrow> shaped s2)
           \<and> m_supportedKeywords s2 = m_supportedKeywords s
           \<and> m_eclipseGrid s2 = m_eclipseGrid s
           \<and> opmLog s2 = (if k \<in> m_autoGeneratedProperties s
                           then opmLog s @ [(Warning, promotion_warning k)] else opmLog s)
           \<and> (\<forall>k' q. m_properties s k' = Some q \<longrightarrow> m_properties s2 k' = Some q)
           \<and> (\<forall>k'. current_values s2 k' = current_values s k')"
proof -
  have sup: "supportsKeyword s k" using assms(2) by (simp add: supportsKeyword_def)
  consider (absent) "m_properties s k = None"
    | (auto) p where "m_properties s k = Some p" "k \<in> m_autoGeneratedProperties s"
    | (explicit) p where "m_properties s k = Some p" "k \<notin> m_autoGeneratedProperties s"
    by (cases "m_properties s k") auto
  then show ?thesis
  proof cases
    case absent
    then have notauto: "k \<notin> m_autoGeneratedProperties s"
      using assms(1) unfolding wf_registry_def by auto
    let ?s2 = "created s k info False"
    have add: "addKeyword s k = (Inr True, ?s2)"
      using assms(2) absent notauto by (rule addKeyword_absent)
    have "supportsKeyword ?s2 k" "m_properties ?s2 k = Some (length (heap s))"
      using assms(2) by (simp_all add: supportsKeyword_def created_def)
    then have get: "getKeyword ?s2 k = (Inr (length (heap s)), ?s2)"
      by (rule getKeyword_present)
    have "getOrCreateProperty s k = (Inr (length (heap s)), ?s2)"
      using absent add get by (simp add: getOrCreateProperty_def hasKeyword_def)
    moreover have "wf_registry ?s2"
      using assms absent by (rule wf_created)
    moreover have "shaped s \<longrightarrow> shaped ?s2"
      using assms(1) shaped_created by blast
    moreover have "\<forall>k'. current_values ?s2 k' = current_values s k'"
      using assms absent by (simp add: current_values_created)
    moreover have "\<forall>k' q. m_properties s k' = Some q \<longrightarrow> m_properties ?s2 k' = Some q"
      using absent by (auto simp: created_def)
    moreover have "hasKeyword ?s2 k"
      using notauto by (simp add: hasKeyword_def isAutoGenerated_def created_def)
    ultimately show ?thesis
      using notauto by (simp add: created_def)
  next
    case auto
    let ?s2 = "promoted s k"
    have add: "addKeyword s k = (Inr True, ?s2)"
      using sup auto(2) by (rule addKeyword_auto)
    have "supportsKeyword ?s2 k" "m_properties ?s2 k = Some p"
      using sup auto(1) by (simp_all add: supportsKeyword_def promoted_def)
    then have get: "getKeyword ?s2 k = (Inr p, ?s2)"
      by (rule getKeyword_present)
    have "getOrCreateProperty s k = (Inr p, ?s2)"
      using auto add get by (simp add: getOrCreateProperty_def hasKeyword_def isAutoGenerated_def)
    moreover have "wf_registry ?s2"
      using assms(1) by (rule wf_promoted)
    moreover have "shaped s \<longrightarrow> shaped ?s2"
      using shaped_promoted by blast
    moreover have "hasKeyword ?s2 k"
      using auto(1) by (simp add: hasKeyword_def isAutoGenerated_def promoted_def)
    ultimately show ?thesis
      using auto by (simp add: current_values_promoted) (simp add: promoted_def)
  next
    case explicit
    have "hasKeyword s k"
      using explicit by (simp add: hasKeyword_def isAutoGenerated_def)
    moreover have "getKeyword s k = (Inr p, s)"
      using sup explicit(1) by (rule getKeyword_present)
    ultimately have "getOrCreateProperty s k = (Inr p, s)"
      by (simp add: getOrCreateProperty_def)
    with explicit assms(1) \<open>hasKeyword s k\<close> show ?thesis by simp
  qed
qed

subsection \<open>The region copy\<close>

lemma copy_loop_length:
  "length (fold (\<lambda>targetIndex d.
               if targetIndex < length d \<and> targetIndex < n
               then d[targetIndex := src ! targetIndex] else d) idx d) = length d"
  by (induction idx arbitrary: d) auto

lemma copy_loop_nth:
  assumes "i < length d" "length d \<le> n"
  shows "fold (\<lambda>targetIndex d.
               if targetIndex < length d \<and> targetIndex < n
               then d[targetIndex := src ! targetIndex] else d) idx d ! i
         = (if i \<in> set idx then src ! i else d ! i)"
  using assms
proof (induction idx arbitrary: d)
  case Nil
  then show ?case by simp
next
  case (Cons x idx)
  then show ?case by (auto simp: nth_list_update)
qed

lemma copyFrom_length: "length (m_data (copyFrom target src inputBox)) = length (m_data target)"
  by (simp add: copyFrom_def copy_loop_length)

lemma copyFrom_nth:
  assumes "i < length (m_data target)" "length (m_data src) = length (m_data target)"
  shows "m_data (copyFrom target src inputBox) ! i
         = (if i \<in> set (getIndexList inputBox) then m_data src ! i else m_data target ! i)"
  using assms by (simp add: copyFrom_def copy_loop_nth)

lemma copyFrom_self: "m_data (copyFrom target target inputBox) = m_data target"
  by (rule nth_equalityI) (simp_all add: copyFrom_length copyFrom_nth)

lemma wf_heap_update_nth:
  assumes "wf_registry s"
  shows "wf_registry (s \<lparr> heap := (heap s)[p := x] \<rparr>)"
  using assms by (simp add: wf_heap_update)

lemma wf_region_registry: "wf_registry region_registry"
  unfolding region_registry_def region_initial_def
  by (intro wf_heap_update_nth wf_addKeyword wf_GridProperties)

lemmas region_defs =
  region_registry_def region_initial_def region_grid_def PORO_info_def PERMX_info_def

subsection \<open>Every reachable state satisfies the invariants\<close>

lemma getOrCreateProperty_state:
  "snd (getOrCreateProperty s name) =
     (if hasKeyword s name then snd (getKeyword s name)
      else case fst (addKeyword s name) of
             Inl e \<Rightarrow> snd (addKeyword s name)
           | Inr b \<Rightarrow> snd (getKeyword (snd (addKeyword s name)) name))"
  by (simp add: getOrCreateProperty_def split: prod.splits sum.splits)

lemma wf_getOrCreateProperty:
  assumes "wf_registry s"
  shows "wf_registry (snd (getOrCreateProperty s name))"
  using assms
  by (simp add: getOrCreateProperty_state wf_getKeyword wf_addKeyword split: sum.splits)

lemma shaped_getOrCreateProperty:
  assumes "wf_registry s" "shaped s"
  shows "shaped (snd (getOrCreateProperty s name))"
  using assms
  by (simp add: getOrCreateProperty_state wf_getKeyword wf_addKeyword shaped_getKeyword
      shaped_addKeyword split: sum.splits)

lemma shaped_heap_update:
  assumes "shaped s" "length (m_data x) = length (m_data (heap s ! p))"
  shows "shaped (s \<lparr> heap := (heap s)[p := x] \<rparr>)"
proof (cases "p < length (heap s)")
  case True
  with assms show ?thesis
    unfolding shaped_def cartesianSize_def by (auto simp: nth_list_update)
next
  case False
  with assms show ?thesis
    unfolding shaped_def cartesianSize_def by (simp add: list_update_beyond)
qed

lemma copyKeyword_state:
  "snd (copyKeyword s srcField targetField inputBox) =
     (case getKeyword s srcField of
        (Inl e, s1) \<Rightarrow> s1
      | (Inr src, s1) \<Rightarrow>
          (case getOrCreateProperty s1 targetField of
             (Inl e, s2) \<Rightarrow> s2
           | (Inr target, s2) \<Rightarrow>
               s2 \<lparr> heap := (heap s2)[target := copyFrom (heap s2 ! target) (heap s2 ! src) inputBox] \<rparr>))"
  by (simp add: copyKeyword_def split: prod.splits sum.splits)

lemma invariants_copyKeyword:
  assumes "wf_registry s" "shaped s"
  shows "wf_registry (snd (copyKeyword s srcField targetField inputBox))
       \<and> shaped (snd (copyKeyword s srcField targetField inputBox))"
proof -
  obtain r1 s1 where get: "getKeyword s srcField = (r1, s1)" by (cases "getKeyword s srcField")
  have s1: "wf_registry s1" "shaped s1"
    using wf_getKeyword [OF assms(1), of srcField] shaped_getKeyword [OF assms, of srcField] get
    by simp_all
  obtain r2 s2 where goc: "getOrCreateProperty s1 targetField = (r2, s2)"
    by (cases "getOrCreateProperty s1 targetField")
  have s2: "wf_registry s2" "shaped s2"
    using wf_getOrCreateProperty [OF s1(1), of targetField]
      shaped_getOrCreateProperty [OF s1, of targetField] goc
    by simp_all
  show ?thesis
    using s1 s2
    by (auto simp: copyKeyword_state get goc wf_heap_update_nth shaped_heap_update
        copyFrom_length split: sum.splits)
qed

lemma shaped_postAddKeyword:
  assumes "shaped s"
  shows "shaped (postAddKeyword s name d pp dimString)"
  using assms unfolding shaped_def postAddKeyword_def cartesianSize_def by simp

lemma reachable_invariants:
  assumes "reachable s"
  shows "wf_registry s \<and> shaped s"
  using assms
proof (induction rule: reachable.induct)
  case (constructed eclipseGrid supportedKeywords)
  show ?case by (simp add: wf_GridProperties shaped_GridProperties)
next
  case (read s keyword)
  then show ?case by (simp add: wf_getKeyword shaped_getKeyword)
next
  case (added s keyword)
  then show ?case by (simp add: wf_addKeyword shaped_addKeyword)
next
  case (handle s name)
  then show ?case by (simp add: wf_getOrCreateProperty shaped_getOrCreateProperty)
next
  case (copied s srcField targetField inputBox)
  then show ?case by (simp add: invariants_copyKeyword)
next
  case (extended s name defaultValue postProcessor dimString)
  then show ?case by (simp add: wf_postAddKeyword shaped_postAddKeyword)
next
  case (written s keyword p d)
  then show ?case by (simp add: wf_heap_update_nth shaped_heap_update)
qed

section \<open>Promotion of an auto-generated property\<close>

text \<open>
  C1. When the keyword is in the catalog and its property is registered as
  auto-generated, \<open>addKeyword\<close> returns true; the name-keyed map, the creation-order
  vector and the store of objects are what they were, so the keyword has the very same
  object with the same cell values; \<open>hasKeyword\<close> holds afterwards and \<open>getKeyword\<close>
  returns that object; exactly one message is handed to the logger, a warning whose
  text contains the keyword name. The registry's own message container is not written.
\<close>

theorem addKeyword_promotes_auto_generated:
  assumes "supportsKeyword s name"
    and "m_properties s name = Some p"
    and "name \<in> m_autoGeneratedProperties s"
  shows "\<exists>s'. addKeyword s name = (Inr True, s')
           \<and> m_properties s' = m_properties s
           \<and> m_property_list s' = m_property_list s
           \<and> heap s' = heap s
           \<and> hasKeyword s' name
           \<and> getKeyword s' name = (Inr p, s')
           \<and> opmLog s' = opmLog s @ [(Warning, promotion_warning name)]
           \<and> (\<exists>pre post. promotion_warning name = pre @ name @ post)
           \<and> m_messages s' = m_messages s"
proof -
  have named: "\<exists>pre post. promotion_warning name = pre @ name @ post"
    unfolding promotion_warning_def by (rule exI [of _ "''The keyword ''"]) simp
  show ?thesis
    using assms named
    by (simp add: addKeyword_def hasKeyword_def isAutoGenerated_def getKeyword_def
        properties_at_def Let_def)
qed

theorem addKeyword_promotes_auto_generated_witness:
  "supportsKeyword scenario_edited ''PORO''
   \<and> m_properties scenario_edited ''PORO'' = Some 0
   \<and> ''PORO'' \<in> m_autoGeneratedProperties scenario_edited
   \<and> fst (addKeyword scenario_edited ''PORO'') = Inr True
   \<and> map m_data (heap (snd (addKeyword scenario_edited ''PORO''))) = [[0.7, 0.2]]
   \<and> hasKeyword (snd (addKeyword scenario_edited ''PORO'')) ''PORO''
   \<and> length (opmLog (snd (addKeyword scenario_edited ''PORO''))) = 1"
proof -
  have h1: "supportsKeyword scenario_edited ''PORO''"
    by (simp add: scenario_defs operation_defs)
  have h2: "m_properties scenario_edited ''PORO'' = Some 0"
    by (simp add: scenario_defs operation_defs)
  have h3: "''PORO'' \<in> m_autoGeneratedProperties scenario_edited"
    by (simp add: scenario_defs operation_defs)
  have h4: "map m_data (heap scenario_edited) = [[0.7, 0.2]]" "opmLog scenario_edited = []"
    by (simp_all add: scenario_defs operation_defs)
  from addKeyword_promotes_auto_generated [OF h1 h2 h3] h1 h2 h3 h4 show ?thesis
    by auto
qed

section \<open>Explicit and auto-generated properties\<close>

text \<open>
  C2. \<open>hasKeyword\<close> holds exactly when the name has a property and the name is not
  among the auto-generated ones. In particular it fails when the name has no property,
  and it still fails after a read of a catalogued name without property has created
  one (which is then registered as auto-generated); it holds once \<open>addKeyword\<close> has
  been called after that read.
\<close>

theorem hasKeyword_iff_explicit:
  "(hasKeyword s name \<longleftrightarrow>
      (\<exists>p. m_properties s name = Some p) \<and> name \<notin> m_autoGeneratedProperties s)
   \<and> (m_properties s name = None \<longrightarrow> \<not> hasKeyword s name)
   \<and> (supportsKeyword s name \<and> m_properties s name = None \<longrightarrow>
        (\<exists>p s1. getKeyword s name = (Inr p, s1)
           \<and> m_properties s1 name = Some p
           \<and> name \<in> m_autoGeneratedProperties s1
           \<and> \<not> hasKeyword s1 name
           \<and> hasKeyword (snd (addKeyword s1 name)) name))"
proof -
  have a: "hasKeyword s name \<longleftrightarrow>
      (\<exists>p. m_properties s name = Some p) \<and> name \<notin> m_autoGeneratedProperties s"
    by (auto simp: hasKeyword_def isAutoGenerated_def split: option.splits)
  have b: "m_properties s name = None \<longrightarrow> \<not> hasKeyword s name"
    by (simp add: hasKeyword_def)
  have c: "\<exists>p s1. getKeyword s name = (Inr p, s1)
           \<and> m_properties s1 name = Some p
           \<and> name \<in> m_autoGeneratedProperties s1
           \<and> \<not> hasKeyword s1 name
           \<and> hasKeyword (snd (addKeyword s1 name)) name"
    if "supportsKeyword s name" "m_properties s name = None"
  proof -
    from that obtain info where info: "m_supportedKeywords s name = Some info"
      by (auto simp: supportsKeyword_def)
    let ?s1 = "created s name info True"
    have "getKeyword s name = (Inr (length (heap s)), ?s1)"
      using info that(2) by (rule getKeyword_absent)
    moreover have "m_properties ?s1 name = Some (length (heap s))"
      "name \<in> m_autoGeneratedProperties ?s1" "\<not> hasKeyword ?s1 name"
      by (simp_all add: created_def hasKeyword_def isAutoGenerated_def)
    moreover have "hasKeyword (snd (addKeyword ?s1 name)) name"
      using info
      by (simp add: addKeyword_def supportsKeyword_def hasKeyword_def isAutoGenerated_def
          created_def)
    ultimately show ?thesis by blast
  qed
  from a b c show ?thesis by blast
qed

theorem hasKeyword_iff_explicit_witness:
  "supportsKeyword scenario ''PORO'' \<and> m_properties scenario ''PORO'' = None
   \<and> \<not> hasKeyword scenario ''PORO''
   \<and> \<not> hasKeyword (snd (getKeyword scenario ''PORO'')) ''PORO''
   \<and> hasKeyword (snd (addKeyword (snd (getKeyword scenario ''PORO'')) ''PORO'')) ''PORO''"
proof -
  have h1: "supportsKeyword scenario ''PORO''" and h2: "m_properties scenario ''PORO'' = None"
    by (simp_all add: scenario_defs operation_defs)
  from hasKeyword_iff_explicit [of scenario "''PORO''"] h1 h2 show ?thesis
    by auto
qed

section \<open>Adding a keyword twice\<close>

text \<open>
  C3. In a well-formed registry, for a catalogued name without property, the first
  \<open>addKeyword\<close> returns true and the second returns false and changes nothing. After
  them the creation-order vector is one longer, one object has been allocated, and the
  name is mapped to that one new object, which was not registered before.
\<close>

theorem addKeyword_twice:
  assumes "wf_registry s" and "supportsKeyword s name" and "m_properties s name = None"
  shows "\<exists>p s1. addKeyword s name = (Inr True, s1)
           \<and> addKeyword s1 name = (Inr False, s1)
           \<and> size_props s1 = size_props s + 1
           \<and> length (heap s1) = length (heap s) + 1
           \<and> m_properties s1 = (m_properties s)(name \<mapsto> p)
           \<and> m_property_list s1 = m_property_list s @ [p]
           \<and> p \<notin> set (m_property_list s)
           \<and> hasKeyword s1 name"
proof -
  from assms(2) obtain info where info: "m_supportedKeywords s name = Some info"
    by (auto simp: supportsKeyword_def)
  have notauto: "name \<notin> m_autoGeneratedProperties s"
    using assms(1,3) unfolding wf_registry_def by auto
  let ?s1 = "created s name info False"
  have first: "addKeyword s name = (Inr True, ?s1)"
    using info assms(3) notauto by (rule addKeyword_absent)
  have "supportsKeyword ?s1 name" "m_properties ?s1 name = Some (length (heap s))"
    "name \<notin> m_autoGeneratedProperties ?s1"
    using info notauto by (simp_all add: supportsKeyword_def created_def)
  then have second: "addKeyword ?s1 name = (Inr False, ?s1)"
    by (rule addKeyword_explicit)
  have fresh: "length (heap s) \<notin> set (m_property_list s)"
    using assms(1) unfolding wf_registry_def by (metis less_irrefl)
  have rest: "size_props ?s1 = size_props s + 1" "length (heap ?s1) = length (heap s) + 1"
    "m_properties ?s1 = (m_properties s)(name \<mapsto> length (heap s))"
    "m_property_list ?s1 = m_property_list s @ [length (heap s)]"
    "hasKeyword ?s1 name"
    using notauto by (simp_all add: created_def size_props_def hasKeyword_def isAutoGenerated_def)
  from first second fresh rest show ?thesis by blast
qed

theorem addKeyword_twice_witness:
  "wf_registry scenario \<and> supportsKeyword scenario ''PERMX'' \<and> m_properties scenario ''PERMX'' = None
   \<and> fst (addKeyword scenario ''PERMX'') = Inr True
   \<and> fst (addKeyword (snd (addKeyword scenario ''PERMX'')) ''PERMX'') = Inr False
   \<and> size_props (snd (addKeyword (snd (addKeyword scenario ''PERMX'')) ''PERMX'')) = 1"
proof -
  have h1: "wf_registry scenario" unfolding scenario_def by (rule wf_GridProperties)
  have h2: "supportsKeyword scenario ''PERMX''" and h3: "m_properties scenario ''PERMX'' = None"
    and h4: "size_props scenario = 0"
    by (simp_all add: scenario_defs operation_defs size_props_def)
  from addKeyword_twice [OF h1 h2 h3] h1 h2 h3 h4 show ?thesis
    by auto
qed

section \<open>The strict read\<close>

text \<open>
  C5. In a well-formed registry \<open>getInitializedKeyword\<close> leaves the state as it is. For
  a catalogued name that has no property, or only an auto-generated one, it throws
  \<open>invalid_argument\<close> with the text "... is supported - but not initialized."; for a
  name outside the catalog it throws \<open>invalid_argument\<close> with the text
  "... is not supported."; it returns an object exactly when the name has a property
  that is not auto-generated, and then that object. The two texts differ whatever the
  keyword names are.
\<close>

theorem getInitializedKeyword_strict:
  assumes "wf_registry s"
  shows "snd (getInitializedKeyword s name) = s
    \<and> (supportsKeyword s name \<and> (m_properties s name = None \<or> name \<in> m_autoGeneratedProperties s)
         \<longrightarrow> fst (getInitializedKeyword s name)
               = Inl (invalid_argument (supported_not_initialized name)))
    \<and> (\<not> supportsKeyword s name
         \<longrightarrow> fst (getInitializedKeyword s name) = Inl (invalid_argument (not_supported name)))
    \<and> (\<forall>p. fst (getInitializedKeyword s name) = Inr p
             \<longleftrightarrow> m_properties s name = Some p \<and> name \<notin> m_autoGeneratedProperties s)
    \<and> (\<forall>k k'. supported_not_initialized k \<noteq> not_supported k')"
proof -
  have unsupported: "m_properties s name = None" if "\<not> supportsKeyword s name"
    using assms that by (simp add: supportsKeyword_def unsupported_no_property)
  have 1: "snd (getInitializedKeyword s name) = s"
    by (simp add: getInitializedKeyword_def)
  have 2: "fst (getInitializedKeyword s name) = Inl (invalid_argument (supported_not_initialized name))"
    if "supportsKeyword s name" "m_properties s name = None \<or> name \<in> m_autoGeneratedProperties s"
    using that by (auto simp: getInitializedKeyword_def hasKeyword_def isAutoGenerated_def)
  have 3: "fst (getInitializedKeyword s name) = Inl (invalid_argument (not_supported name))"
    if "\<not> supportsKeyword s name"
    using that unsupported by (simp add: getInitializedKeyword_def hasKeyword_def)
  have 4: "fst (getInitializedKeyword s name) = Inr p
             \<longleftrightarrow> m_properties s name = Some p \<and> name \<notin> m_autoGeneratedProperties s" for p
    by (auto simp: getInitializedKeyword_def hasKeyword_def isAutoGenerated_def properties_at_def
        split: option.splits)
  from 1 2 3 4 messages_differ show ?thesis by blast
qed

theorem getInitializedKeyword_strict_witness:
  "wf_registry scenario_read
   \<and> supportsKeyword scenario_read ''PORO'' \<and> ''PORO'' \<in> m_autoGeneratedProperties scenario_read
   \<and> getInitializedKeyword scenario_read ''PORO''
       = (Inl (invalid_argument ''Keyword: PORO is supported - but not initialized.''), scenario_read)"
proof -
  have h1: "wf_registry scenario_read"
    by (rule wf_scenario_read)
  have h2: "supportsKeyword scenario_read ''PORO''"
    and h3: "''PORO'' \<in> m_autoGeneratedProperties scenario_read"
    by (simp_all add: scenario_defs operation_defs)
  from getInitializedKeyword_strict [OF h1, of "''PORO''"] h1 h2 h3 show ?thesis
    by (auto simp: supported_not_initialized_def prod_eq_iff)
qed

section \<open>Names outside the catalog\<close>

text \<open>
  C6. In a well-formed registry, for a name that is not in the catalog,
  \<open>supportsKeyword\<close> and \<open>hasKeyword\<close> are false, and \<open>getKeyword\<close>,
  \<open>getInitializedKeyword\<close>, \<open>addKeyword\<close> and \<open>getOrCreateProperty\<close> each throw
  \<open>invalid_argument\<close> with a text saying that the keyword is not supported, and leave
  the whole state unchanged.
\<close>

theorem unsupported_keyword_fails:
  assumes "wf_registry s" and "m_supportedKeywords s name = None"
  shows "\<not> supportsKeyword s name \<and> \<not> hasKeyword s name
    \<and> getKeyword s name = (Inl (invalid_argument (not_supported_in_container name)), s)
    \<and> getInitializedKeyword s name = (Inl (invalid_argument (not_supported name)), s)
    \<and> addKeyword s name = (Inl (invalid_argument (not_supported_in_container name)), s)
    \<and> getOrCreateProperty s name = (Inl (invalid_argument (not_supported_in_container name)), s)"
proof -
  have none: "m_properties s name = None"
    using assms by (rule unsupported_no_property)
  have sup: "\<not> supportsKeyword s name"
    using assms(2) by (simp add: supportsKeyword_def)
  have has: "\<not> hasKeyword s name"
    using none by (simp add: hasKeyword_def)
  have add: "addKeyword s name = (Inl (invalid_argument (not_supported_in_container name)), s)"
    using sup by (simp add: addKeyword_def)
  have get: "getKeyword s name = (Inl (invalid_argument (not_supported_in_container name)), s)"
    using sup has by (simp add: getKeyword_def addAutoGeneratedKeyword_def)
  have ini: "getInitializedKeyword s name = (Inl (invalid_argument (not_supported name)), s)"
    using sup has by (simp add: getInitializedKeyword_def)
  have goc: "getOrCreateProperty s name = (Inl (invalid_argument (not_supported_in_container name)), s)"
    using has add by (simp add: getOrCreateProperty_def)
  from sup has get ini add goc show ?thesis by simp
qed

theorem unsupported_keyword_fails_witness:
  "wf_registry scenario_read \<and> m_supportedKeywords scenario_read ''SWAT'' = None
   \<and> getKeyword scenario_read ''SWAT''
       = (Inl (invalid_argument ''The keyword: SWAT is not supported in this container''), scenario_read)
   \<and> getInitializedKeyword scenario_read ''SWAT''
       = (Inl (invalid_argument ''Keyword: SWAT is not supported.''), scenario_read)"
proof -
  have h1: "wf_registry scenario_read"
    by (rule wf_scenario_read)
  have h2: "m_supportedKeywords scenario_read ''SWAT'' = None"
    by (simp add: scenario_defs operation_defs)
  from unsupported_keyword_fails [OF h1 h2] h1 h2 show ?thesis
    by (simp add: not_supported_in_container_def not_supported_def)
qed

section \<open>Duplicate names in the supported-keyword list\<close>

text \<open>
  C7, as the specification states it: with two descriptors for PORO the registry would
  use the last one. It does not: the catalog entry is not the last descriptor, and a
  property created for PORO is constructed from the first descriptor, whose default
  differs from the last one's.
\<close>

theorem catalog_last_wins_counterexample:
  "last [PORO_info, PORO_other] = PORO_other
   \<and> m_supportedKeywords (GridProperties scenario_grid [PORO_info, PORO_other]) ''PORO''
       \<noteq> Some PORO_other
   \<and> heap (snd (getKeyword (GridProperties scenario_grid [PORO_info, PORO_other]) ''PORO''))
       = [GridProperty 2 1 1 PORO_info]
   \<and> getDefaultValue PORO_info \<noteq> getDefaultValue PORO_other"
  by (simp add: scenario_defs GridProperties_def emplace_def supportsKeyword_def
      hasKeyword_def isAutoGenerated_def addAutoGeneratedKeyword_def new_property_def
      register_property_def properties_at_def getKeyword_def Let_def PORO_other_def)

text \<open>
  C7, amended. The catalog entry of a name is the first descriptor with that name in
  the list given to the constructor; a name is supported exactly when some descriptor
  of the list has it; and a property created for the name in the new registry is
  constructed from that first descriptor.
\<close>

theorem catalog_first_wins:
  "m_supportedKeywords (GridProperties g xs) k = find (\<lambda>info. getKeywordName info = k) xs
   \<and> (supportsKeyword (GridProperties g xs) k \<longleftrightarrow> k \<in> getKeywordName ` set xs)
   \<and> (\<forall>d. find (\<lambda>info. getKeywordName info = k) xs = Some d \<longrightarrow>
          getKeyword (GridProperties g xs) k = (Inr 0, created (GridProperties g xs) k d True)
          \<and> heap (created (GridProperties g xs) k d True)
              = [GridProperty (getNX g) (getNY g) (getNZ g) d])"
proof -
  let ?s = "GridProperties g xs"
  have cat: "m_supportedKeywords ?s k = find (\<lambda>info. getKeywordName info = k) xs"
    by (simp add: GridProperties_def emplace_all_lookup)
  have mem: "supportsKeyword ?s k \<longleftrightarrow> k \<in> getKeywordName ` set xs"
    unfolding supportsKeyword_def cat by (auto simp: find_None_iff)
  have dflt: "getKeyword ?s k = (Inr 0, created ?s k d True)
          \<and> heap (created ?s k d True) = [GridProperty (getNX g) (getNY g) (getNZ g) d]"
    if "find (\<lambda>info. getKeywordName info = k) xs = Some d" for d
  proof -
    have "m_supportedKeywords ?s k = Some d" using cat that by simp
    moreover have "m_properties ?s k = None" by (simp add: GridProperties_def)
    ultimately have "getKeyword ?s k = (Inr (length (heap ?s)), created ?s k d True)"
      by (rule getKeyword_absent)
    then show ?thesis
      by (simp add: GridProperties_def created_def)
  qed
  from cat mem dflt show ?thesis by blast
qed

theorem catalog_first_wins_witness:
  "find (\<lambda>info. getKeywordName info = ''PORO'') [PORO_info, PORO_other] = Some PORO_info
   \<and> m_supportedKeywords (GridProperties scenario_grid [PORO_info, PORO_other]) ''PORO'' = Some PORO_info
   \<and> fst (getKeyword (GridProperties scenario_grid [PORO_info, PORO_other]) ''PORO'') = Inr 0"
proof -
  have h: "find (\<lambda>info. getKeywordName info = ''PORO'') [PORO_info, PORO_other] = Some PORO_info"
    by (simp add: PORO_info_def)
  from catalog_first_wins [of scenario_grid "[PORO_info, PORO_other]" "''PORO''"] h
  show ?thesis by simp
qed

section \<open>The privileged catalog extension\<close>

text \<open>
  C10. \<open>postAddKeyword\<close> for a name that is already in the catalog leaves the registry
  as it is; whatever the name, every existing catalog entry is still there unchanged
  afterwards; and for a name not yet in the catalog the new entry is added.
\<close>

theorem postAddKeyword_keeps_existing:
  "(supportsKeyword s name \<longrightarrow> postAddKeyword s name defaultValue postProcessor dimString = s)
   \<and> (\<forall>k e. m_supportedKeywords s k = Some e \<longrightarrow>
         m_supportedKeywords (postAddKeyword s name defaultValue postProcessor dimString) k = Some e)
   \<and> (\<not> supportsKeyword s name \<longrightarrow>
         m_supportedKeywords (postAddKeyword s name defaultValue postProcessor dimString) name
           = Some \<lparr> getKeywordName = name, getDefaultValue = defaultValue,
                    getPostProcessor = postProcessor, getDimensionString = dimString \<rparr>)"
  by (auto simp: postAddKeyword_def emplace_def supportsKeyword_def split: option.splits)

theorem postAddKeyword_keeps_existing_witness:
  "supportsKeyword scenario ''PORO''
   \<and> postAddKeyword scenario ''PORO'' 0.9 () ''1'' = scenario
   \<and> m_supportedKeywords (postAddKeyword scenario ''PORO'' 0.9 () ''1'') ''PORO'' = Some PORO_info"
proof -
  have h1: "supportsKeyword scenario ''PORO''"
    and h2: "m_supportedKeywords scenario ''PORO'' = Some PORO_info"
    by (simp_all add: scenario_defs operation_defs)
  from postAddKeyword_keeps_existing [of scenario "''PORO''" "0.9" "()" "''1''"] h1 h2
  show ?thesis by simp
qed

section \<open>Creation order and positional access\<close>

text \<open>
  C4. Start from a newly constructed registry and materialise keywords with distinct
  names, all named by the supported-keyword list, each by a read or by \<open>addKeyword\<close>.
  Then \<open>size\<close> is the number of materialisations, exactly that many objects have been
  allocated, and the creation-order vector lists pairwise different objects. For every
  position \<open>i\<close> below \<open>size\<close> the positional \<open>getKeyword\<close> and \<open>getKeyword\<close> by the name
  of the \<open>i\<close>-th materialisation return the same object and change nothing; that object
  is the \<open>i\<close>-th entry of the vector, it lies in the store, and it is the property
  constructed for the grid's extents from the catalog entry of that name. For every
  position from \<open>size\<close> on the positional \<open>getKeyword\<close> throws \<open>invalid_argument\<close> with
  the text "Invalid index".
\<close>

theorem creation_order:
  assumes "distinct (map keyword_of ms)"
    and "\<forall>m \<in> set ms. keyword_of m \<in> getKeywordName ` set xs"
  shows "size_props (materialize_all (GridProperties g xs) ms) = length ms
    \<and> length (heap (materialize_all (GridProperties g xs) ms)) = length ms
    \<and> distinct (m_property_list (materialize_all (GridProperties g xs) ms))
    \<and> (\<forall>i < length ms. \<exists>p info.
          getKeyword_index (materialize_all (GridProperties g xs) ms) i
            = (Inr p, materialize_all (GridProperties g xs) ms)
          \<and> getKeyword (materialize_all (GridProperties g xs) ms) (keyword_of (ms ! i))
            = (Inr p, materialize_all (GridProperties g xs) ms)
          \<and> m_property_list (materialize_all (GridProperties g xs) ms) ! i = p
          \<and> p < length (heap (materialize_all (GridProperties g xs) ms))
          \<and> find (\<lambda>info. getKeywordName info = keyword_of (ms ! i)) xs = Some info
          \<and> heap (materialize_all (GridProperties g xs) ms) ! p
              = GridProperty (getNX g) (getNY g) (getNZ g) info)
    \<and> (\<forall>i \<ge> size_props (materialize_all (GridProperties g xs) ms).
          getKeyword_index (materialize_all (GridProperties g xs) ms) i
            = (Inl (invalid_argument ''Invalid index''), materialize_all (GridProperties g xs) ms))"
proof -
  let ?init = "GridProperties g xs"
  let ?s = "materialize_all ?init ms"
  have sup0: "supportsKeyword ?init (keyword_of m)" if "m \<in> set ms" for m
    using assms(2) that by (simp add: supportsKeyword_GridProperties)
  have fresh0: "\<forall>m \<in> set ms. supportsKeyword ?init (keyword_of m)
                  \<and> m_properties ?init (keyword_of m) = None"
    using sup0 by (simp add: GridProperties_def)
  from materialize_all_fresh [OF wf_GridProperties assms(1) fresh0] obtain ps where
    wf: "wf_registry ?s"
    and cat: "m_supportedKeywords ?s = m_supportedKeywords ?init"
    and list: "m_property_list ?s = m_property_list ?init @ ps"
    and maps: "map (m_properties ?s) (map keyword_of ms) = map Some ps"
    by blast
  from materialize_all_objects [OF wf_GridProperties assms(1) fresh0] obtain hs where
    heap: "heap ?s = heap ?init @ hs" and hlen: "length hs = length ms"
    and objs: "\<forall>m \<in> set ms. \<forall>info. m_supportedKeywords ?init (keyword_of m) = Some info \<longrightarrow>
          (\<exists>p. m_properties ?s (keyword_of m) = Some p \<and> p < length (heap ?s)
             \<and> heap ?s ! p = GridProperty (getNX (m_eclipseGrid ?init))
                   (getNY (m_eclipseGrid ?init)) (getNZ (m_eclipseGrid ?init)) info)"
    by blast
  have grid0: "m_eclipseGrid ?init = g"
    by (simp add: GridProperties_def)
  have list_ps: "m_property_list ?s = ps"
    using list by (simp add: GridProperties_def)
  have len: "length ps = length ms"
    using maps by (metis length_map)
  have size: "size_props ?s = length ms"
    by (simp add: size_props_def list_ps len)
  have allocated: "length (heap ?s) = length ms"
    using heap hlen by (simp add: GridProperties_def)
  have dist: "distinct (m_property_list ?s)"
    using wf unfolding wf_registry_def by blast
  have pos: "\<exists>p info. getKeyword_index ?s i = (Inr p, ?s)
                \<and> getKeyword ?s (keyword_of (ms ! i)) = (Inr p, ?s)
                \<and> m_property_list ?s ! i = p
                \<and> p < length (heap ?s)
                \<and> find (\<lambda>info. getKeywordName info = keyword_of (ms ! i)) xs = Some info
                \<and> heap ?s ! p = GridProperty (getNX g) (getNY g) (getNZ g) info"
    if "i < length ms" for i
  proof -
    have "map (m_properties ?s) (map keyword_of ms) ! i = map Some ps ! i"
      using maps by simp
    then have at: "m_properties ?s (keyword_of (ms ! i)) = Some (ps ! i)"
      using that len by simp
    have sup: "supportsKeyword ?init (keyword_of (ms ! i))"
      using sup0 [of "ms ! i"] that by simp
    then obtain info where info: "m_supportedKeywords ?init (keyword_of (ms ! i)) = Some info"
      by (auto simp: supportsKeyword_def)
    then have found: "find (\<lambda>info. getKeywordName info = keyword_of (ms ! i)) xs = Some info"
      by (simp add: catalog_GridProperties)
    from objs info that obtain p where
      "m_properties ?s (keyword_of (ms ! i)) = Some p" "p < length (heap ?s)"
      "heap ?s ! p = GridProperty (getNX g) (getNY g) (getNZ g) info"
      unfolding grid0 by (metis nth_mem)
    with at have live: "ps ! i < length (heap ?s)"
      and obj: "heap ?s ! (ps ! i) = GridProperty (getNX g) (getNY g) (getNZ g) info"
      by simp_all
    have "supportsKeyword ?s (keyword_of (ms ! i))"
      using sup unfolding supportsKeyword_def cat by simp
    then have "getKeyword ?s (keyword_of (ms ! i)) = (Inr (ps ! i), ?s)"
      using at by (rule getKeyword_present)
    moreover have "getKeyword_index ?s i = (Inr (ps ! i), ?s)"
      using that size list_ps by (simp add: getKeyword_index_in_range)
    ultimately show ?thesis
      using live obj found list_ps by blast
  qed
  have out: "getKeyword_index ?s i = (Inl (invalid_argument ''Invalid index''), ?s)"
    if "i \<ge> size_props ?s" for i
    using that by (simp add: getKeyword_index_def)
  from size allocated dist pos out show ?thesis by blast
qed

theorem creation_order_witness:
  "distinct (map keyword_of [Lazy ''PERMX'', Explicit ''PORO''])
   \<and> set (map keyword_of [Lazy ''PERMX'', Explicit ''PORO''])
         \<subseteq> getKeywordName ` set [PORO_info, PERMX_info]
   \<and> size_props (materialize_all scenario [Lazy ''PERMX'', Explicit ''PORO'']) = 2
   \<and> m_property_list (materialize_all scenario [Lazy ''PERMX'', Explicit ''PORO'']) = [0, 1]
   \<and> heap (materialize_all scenario [Lazy ''PERMX'', Explicit ''PORO''])
       = [GridProperty 2 1 1 PERMX_info, GridProperty 2 1 1 PORO_info]
   \<and> fst (getKeyword_index (materialize_all scenario [Lazy ''PERMX'', Explicit ''PORO'']) 1)
       = Inr 1
   \<and> fst (getKeyword (materialize_all scenario [Lazy ''PERMX'', Explicit ''PORO'']) ''PORO'')
       = Inr 1
   \<and> fst (getKeyword_index (materialize_all scenario [Lazy ''PERMX'', Explicit ''PORO'']) 2)
       = Inl (invalid_argument ''Invalid index'')"
proof -
  have h1: "distinct (map keyword_of [Lazy ''PERMX'', Explicit ''PORO''])"
    by simp
  have h2: "\<forall>m \<in> set [Lazy ''PERMX'', Explicit ''PORO''].
         keyword_of m \<in> getKeywordName ` set [PORO_info, PERMX_info]"
    by (simp add: PORO_info_def PERMX_info_def)
  from creation_order [OF h1 h2, of scenario_grid] h1 h2 show ?thesis
    by (simp add: materialize_all_def scenario_def scenario_grid_def PORO_info_def
        PERMX_info_def GridProperties_def emplace_def supportsKeyword_def hasKeyword_def
        isAutoGenerated_def addAutoGeneratedKeyword_def new_property_def
        register_property_def properties_at_def getKeyword_def addKeyword_def Let_def
        size_props_def getKeyword_index_def)
qed

section \<open>Copying a region between keywords\<close>

text \<open>
  C8. In a well-formed registry whose arrays all have one element per grid cell, for
  catalogued source and target names and a region inside the grid, \<open>copyKeyword\<close>
  returns normally. Afterwards both names have a property (the one they had, when they
  had one); the source's array is what it was before the call, or the default-filled
  array if the source had to be created; the target's array has one element per cell;
  each target cell inside the region equals the source's cell, and each target cell
  outside the region has the value the target had before the call (the default, for a
  target created by the call).
\<close>

theorem copyKeyword_region:
  assumes "wf_registry s" and "shaped s"
    and "supportsKeyword s srcField" and "supportsKeyword s targetField"
    and "\<forall>i \<in> set (getIndexList inputBox). i < cartesianSize s"
  shows "\<exists>src target s'.
           copyKeyword s srcField targetField inputBox = (Inr (), s')
           \<and> m_properties s' srcField = Some src
           \<and> m_properties s' targetField = Some target
           \<and> (\<forall>q. m_properties s srcField = Some q \<longrightarrow> src = q)
           \<and> (\<forall>q. m_properties s targetField = Some q \<longrightarrow> target = q)
           \<and> m_data (heap s' ! src) = current_values s srcField
           \<and> length (m_data (heap s' ! target)) = cartesianSize s
           \<and> (\<forall>i < cartesianSize s.
                 m_data (heap s' ! target) ! i
                   = (if i \<in> set (getIndexList inputBox) then m_data (heap s' ! src) ! i
                      else current_values s targetField ! i))"
proof -
  from assms(3,4) obtain isrc itgt where
    isrc: "m_supportedKeywords s srcField = Some isrc"
    and itgt: "m_supportedKeywords s targetField = Some itgt"
    by (auto simp: supportsKeyword_def)
  from getKeyword_supported [OF assms(1) isrc] obtain src s1 where
    get: "getKeyword s srcField = (Inr src, s1)"
    and src1: "m_properties s1 srcField = Some src"
    and wf1: "wf_registry s1" and sh1: "shaped s1"
    and cat1: "m_supportedKeywords s1 = m_supportedKeywords s"
    and grid1: "m_eclipseGrid s1 = m_eclipseGrid s"
    and keep1: "\<forall>k' q. m_properties s k' = Some q \<longrightarrow> m_properties s1 k' = Some q"
    and cv1: "\<forall>k'. current_values s1 k' = current_values s k'"
    using assms(2) by blast
  have itgt1: "m_supportedKeywords s1 targetField = Some itgt"
    using itgt cat1 by simp
  from getOrCreateProperty_supported [OF wf1 itgt1] obtain target s2 where
    goc: "getOrCreateProperty s1 targetField = (Inr target, s2)"
    and tgt2: "m_properties s2 targetField = Some target"
    and wf2: "wf_registry s2" and sh2: "shaped s2"
    and grid2: "m_eclipseGrid s2 = m_eclipseGrid s1"
    and keep2: "\<forall>k' q. m_properties s1 k' = Some q \<longrightarrow> m_properties s2 k' = Some q"
    and cv2: "\<forall>k'. current_values s2 k' = current_values s1 k'"
    using sh1 by blast
  have src2: "m_properties s2 srcField = Some src"
    using keep2 src1 by blast
  have size2: "cartesianSize s2 = cartesianSize s"
    by (simp add: cartesianSize_def grid1 grid2)
  have src_data: "m_data (heap s2 ! src) = current_values s srcField"
    using cv1 cv2 src2 by (metis current_values_def option.simps(5))
  have tgt_data: "m_data (heap s2 ! target) = current_values s targetField"
    using cv1 cv2 tgt2 by (metis current_values_def option.simps(5))
  have src_len: "length (m_data (heap s2 ! src)) = cartesianSize s"
    using registered_shape [OF wf2 sh2 src2] size2 by simp
  have tgt_len: "length (m_data (heap s2 ! target)) = cartesianSize s"
    using registered_shape [OF wf2 sh2 tgt2] size2 by simp
  have tgt_in: "target < length (heap s2)"
    using wf2 tgt2 by (rule registered_in_heap)
  let ?copy = "copyFrom (heap s2 ! target) (heap s2 ! src) inputBox"
  let ?s' = "s2 \<lparr> heap := (heap s2)[target := ?copy] \<rparr>"
  have run: "copyKeyword s srcField targetField inputBox = (Inr (), ?s')"
    by (simp add: copyKeyword_def get goc)
  have at_tgt: "heap ?s' ! target = ?copy"
    using tgt_in by simp
  have at_src: "m_data (heap ?s' ! src) = m_data (heap s2 ! src)"
  proof (cases "src = target")
    case True
    then show ?thesis using tgt_in by (simp add: copyFrom_self)
  next
    case False
    then show ?thesis by simp
  qed
  have cells: "m_data (heap ?s' ! target) ! i
                 = (if i \<in> set (getIndexList inputBox) then m_data (heap ?s' ! src) ! i
                    else current_values s targetField ! i)"
    if "i < cartesianSize s" for i
  proof -
    have "m_data ?copy ! i
            = (if i \<in> set (getIndexList inputBox) then m_data (heap s2 ! src) ! i
               else m_data (heap s2 ! target) ! i)"
      by (rule copyFrom_nth) (simp_all add: that src_len tgt_len)
    then show ?thesis
      unfolding at_tgt at_src by (simp only: tgt_data)
  qed
  have "m_properties ?s' srcField = Some src" "m_properties ?s' targetField = Some target"
    using src2 tgt2 by simp_all
  moreover have "\<forall>q. m_properties s srcField = Some q \<longrightarrow> src = q"
    using keep1 src1 by (metis option.inject)
  moreover have "\<forall>q. m_properties s targetField = Some q \<longrightarrow> target = q"
    using keep1 keep2 tgt2 by (metis option.inject)
  moreover have "m_data (heap ?s' ! src) = current_values s srcField"
    using at_src src_data by simp
  moreover have "length (m_data (heap ?s' ! target)) = cartesianSize s"
    unfolding at_tgt by (simp add: copyFrom_length tgt_len)
  ultimately show ?thesis
    using run cells by blast
qed

theorem copyKeyword_region_witness:
  "wf_registry region_registry \<and> shaped region_registry
   \<and> supportsKeyword region_registry ''PORO'' \<and> supportsKeyword region_registry ''PERMX''
   \<and> set (getIndexList \<lparr> getIndexList = [0, 1] \<rparr>) \<subseteq> {..< cartesianSize region_registry}
   \<and> map m_data (heap (snd (copyKeyword region_registry ''PORO'' ''PERMX''
                               \<lparr> getIndexList = [0, 1] \<rparr>)))
       = [[1, 2, 3, 4], [1, 2, 100, 100]]"
proof -
  have h1: "wf_registry region_registry" by (rule wf_region_registry)
  have h2: "shaped region_registry"
    by (simp add: shaped_def cartesianSize_def region_defs operation_defs eval_nat_numeral)
  have h3: "supportsKeyword region_registry ''PORO''"
    and h4: "supportsKeyword region_registry ''PERMX''"
    by (simp_all add: region_defs operation_defs)
  have h5: "\<forall>i \<in> set (getIndexList \<lparr> getIndexList = [0, 1] \<rparr>). i < cartesianSize region_registry"
    by (simp add: cartesianSize_def region_defs operation_defs)
  have run: "map m_data (heap (snd (copyKeyword region_registry ''PORO'' ''PERMX''
                               \<lparr> getIndexList = [0, 1] \<rparr>)))
       = [[1, 2, 3, 4], [1, 2, 100, 100]]"
    by (simp add: copyKeyword_def getOrCreateProperty_def copyFrom_def region_defs
        operation_defs eval_nat_numeral)
  from copyKeyword_region [OF h1 h2 h3 h4 h5] h1 h2 h3 h4 h5 run show ?thesis
    by simp
qed

section \<open>Promotion through the writable handle\<close>

text \<open>
  C9. When the name is catalogued and its property is registered as auto-generated,
  \<open>getOrCreateProperty\<close> returns that same object; afterwards \<open>hasKeyword\<close> holds, the
  promotion warning has been handed to the logger, and the maps, the creation-order
  vector and the stored objects (so the cell values) are unchanged. The same promotion
  happens when the name is the target of \<open>copyKeyword\<close> in a well-formed registry with a
  catalogued source: \<open>hasKeyword\<close> holds afterwards, the one message logged during the
  call is the promotion warning, and the name still has the same object.
\<close>

theorem getOrCreateProperty_promotes:
  assumes "supportsKeyword s name"
    and "m_properties s name = Some p"
    and "name \<in> m_autoGeneratedProperties s"
  shows "(\<exists>s'. getOrCreateProperty s name = (Inr p, s')
            \<and> hasKeyword s' name
            \<and> opmLog s' = opmLog s @ [(Warning, promotion_warning name)]
            \<and> m_properties s' = m_properties s
            \<and> m_property_list s' = m_property_list s
            \<and> heap s' = heap s)
       \<and> (\<forall>srcField inputBox. wf_registry s \<and> supportsKeyword s srcField \<longrightarrow>
            (\<exists>s'. copyKeyword s srcField name inputBox = (Inr (), s')
               \<and> hasKeyword s' name
               \<and> opmLog s' = opmLog s @ [(Warning, promotion_warning name)]
               \<and> m_properties s' name = Some p))"
proof -
  have add: "addKeyword s name = (Inr True, promoted s name)"
    using assms(1,3) by (rule addKeyword_auto)
  have "supportsKeyword (promoted s name) name" "m_properties (promoted s name) name = Some p"
    using assms(1,2) by (simp_all add: supportsKeyword_def promoted_def)
  then have get: "getKeyword (promoted s name) name = (Inr p, promoted s name)"
    by (rule getKeyword_present)
  have goc: "getOrCreateProperty s name = (Inr p, promoted s name)"
    using assms(3) add get by (simp add: getOrCreateProperty_def hasKeyword_def isAutoGenerated_def)
  have has: "hasKeyword (promoted s name) name"
    using assms(2) by (simp add: hasKeyword_def isAutoGenerated_def promoted_def)
  have first: "\<exists>s'. getOrCreateProperty s name = (Inr p, s')
            \<and> hasKeyword s' name
            \<and> opmLog s' = opmLog s @ [(Warning, promotion_warning name)]
            \<and> m_properties s' = m_properties s
            \<and> m_property_list s' = m_property_list s
            \<and> heap s' = heap s"
    using goc has by (simp add: promoted_def)
  have second: "\<exists>s'. copyKeyword s srcField name inputBox = (Inr (), s')
               \<and> hasKeyword s' name
               \<and> opmLog s' = opmLog s @ [(Warning, promotion_warning name)]
               \<and> m_properties s' name = Some p"
    if wf: "wf_registry s" and sup: "supportsKeyword s srcField" for srcField inputBox
  proof -
    from sup obtain isrc where isrc: "m_supportedKeywords s srcField = Some isrc"
      by (auto simp: supportsKeyword_def)
    from assms(1) obtain iname where iname: "m_supportedKeywords s name = Some iname"
      by (auto simp: supportsKeyword_def)
    from getKeyword_supported [OF wf isrc] obtain src s1 where
      get1: "getKeyword s srcField = (Inr src, s1)"
      and wf1: "wf_registry s1"
      and cat1: "m_supportedKeywords s1 = m_supportedKeywords s"
      and log1: "opmLog s1 = opmLog s"
      and auto1: "m_autoGeneratedProperties s \<subseteq> m_autoGeneratedProperties s1"
      and keep1: "\<forall>k' q. m_properties s k' = Some q \<longrightarrow> m_properties s1 k' = Some q"
      by blast
    have iname1: "m_supportedKeywords s1 name = Some iname"
      using iname cat1 by simp
    have name1: "name \<in> m_autoGeneratedProperties s1"
      using assms(3) auto1 by blast
    from getOrCreateProperty_supported [OF wf1 iname1] obtain target s2 where
      goc2: "getOrCreateProperty s1 name = (Inr target, s2)"
      and tgt2: "m_properties s2 name = Some target"
      and has2: "hasKeyword s2 name"
      and log2: "opmLog s2 = opmLog s1 @ [(Warning, promotion_warning name)]"
      and keep2: "\<forall>k' q. m_properties s1 k' = Some q \<longrightarrow> m_properties s2 k' = Some q"
      using name1 by (metis (full_types))
    have same: "m_properties s2 name = Some p"
      using assms(2) keep1 keep2 by blast
    let ?s' = "s2 \<lparr> heap := (heap s2)[target := copyFrom (heap s2 ! target) (heap s2 ! src) inputBox] \<rparr>"
    have "copyKeyword s srcField name inputBox = (Inr (), ?s')"
      by (simp add: copyKeyword_def get1 goc2)
    moreover have "hasKeyword ?s' name"
      using has2 by (simp add: hasKeyword_def isAutoGenerated_def)
    moreover have "opmLog ?s' = opmLog s @ [(Warning, promotion_warning name)]"
      using log1 log2 by simp
    moreover have "m_properties ?s' name = Some p"
      using same by simp
    ultimately show ?thesis by blast
  qed
  from first second show ?thesis by blast
qed

theorem getOrCreateProperty_promotes_witness:
  "supportsKeyword scenario_edited ''PORO''
   \<and> m_properties scenario_edited ''PORO'' = Some 0
   \<and> ''PORO'' \<in> m_autoGeneratedProperties scenario_edited
   \<and> wf_registry scenario_edited \<and> supportsKeyword scenario_edited ''PERMX''
   \<and> fst (getOrCreateProperty scenario_edited ''PORO'') = Inr 0
   \<and> map m_data (heap (snd (getOrCreateProperty scenario_edited ''PORO''))) = [[0.7, 0.2]]
   \<and> hasKeyword (snd (getOrCreateProperty scenario_edited ''PORO'')) ''PORO''
   \<and> length (opmLog (snd (getOrCreateProperty scenario_edited ''PORO''))) = 1
   \<and> hasKeyword (snd (copyKeyword scenario_edited ''PERMX'' ''PORO'' \<lparr> getIndexList = [1] \<rparr>))
        ''PORO''"
proof -
  have h1: "supportsKeyword scenario_edited ''PORO''"
    and h2: "m_properties scenario_edited ''PORO'' = Some 0"
    and h3: "''PORO'' \<in> m_autoGeneratedProperties scenario_edited"
    and h5: "supportsKeyword scenario_edited ''PERMX''"
    by (simp_all add: scenario_defs operation_defs)
  have h4: "wf_registry scenario_edited" by (rule wf_scenario_edited)
  have h6: "map m_data (heap scenario_edited) = [[0.7, 0.2]]" "opmLog scenario_edited = []"
    by (simp_all add: scenario_defs operation_defs)
  from getOrCreateProperty_promotes [OF h1 h2 h3] h1 h2 h3 h4 h5 h6 show ?thesis
    by (auto simp: prod_eq_iff)
qed

end
